theory Spec2Isabelle
  imports Complex_Main "HOL-Library.Sublist"
begin

section \<open>Python strings\<close>

text \<open>
  A Python \<open>str\<close> is a sequence of Unicode code points, so it is modelled as a list of
  natural numbers (the code points).  ASCII literals of the source are written through
  \<open>ascii\<close>; the Chinese literals of \<open>main.py\<close> are written out as code points.
\<close>

type_synonym pystr = "nat list"

definition ascii :: "string \<Rightarrow> pystr" where
  "ascii s = map of_char s"

text \<open>The newline character \<open>'\n'\<close>.\<close>

abbreviation NL :: nat where
  "NL \<equiv> 10"

text \<open>
  \<open>str.isspace\<close> on one code point; the regular expression class \<open>\s\<close> on a \<open>str\<close>
  pattern and \<open>str.strip()\<close> use the same predicate.
\<close>

definition isspace :: "nat \<Rightarrow> bool" where
  "isspace c \<longleftrightarrow>
     (9 \<le> c \<and> c \<le> 13) \<or> (28 \<le> c \<and> c \<le> 32) \<or> c = 133 \<or> c = 160 \<or> c = 5760 \<or>
     (8192 \<le> c \<and> c \<le> 8202) \<or> c = 8232 \<or> c = 8233 \<or> c = 8239 \<or> c = 8287 \<or> c = 12288"

text \<open>\<open>text.strip()\<close>: whitespace removed at both ends.\<close>

definition lstrip :: "pystr \<Rightarrow> pystr" where
  "lstrip s = dropWhile isspace s"

definition rstrip :: "pystr \<Rightarrow> pystr" where
  "rstrip s = rev (dropWhile isspace (rev s))"

definition strip :: "pystr \<Rightarrow> pystr" where
  "strip s = rstrip (lstrip s)"

text \<open>\<open>'\n'.join(text_list)\<close>.\<close>

fun join_nl :: "pystr list \<Rightarrow> pystr" where
  "join_nl [] = []"
| "join_nl [l] = l"
| "join_nl (l # m # ls) = l @ NL # join_nl (m # ls)"

section \<open>The substitution \<open>re.sub(r'\n\s*\n', '\n', text)\<close>\<close>

text \<open>
  \<open>skip_blank cs\<close> matches \<open>\s*\n\<close> at the start of \<open>cs\<close> the way the backtracking
  matcher does: \<open>\s*\<close> is greedy, so it first takes the whole leading run of whitespace
  and then gives characters back until the next one is a newline.  The match therefore
  ends after the last newline of the leading whitespace run; the result is the text after
  the match, or \<open>None\<close> when that run holds no newline.
\<close>

fun skip_blank :: "pystr \<Rightarrow> pystr option" where
  "skip_blank [] = None"
| "skip_blank (c # cs) =
     (if isspace c then
        (case skip_blank cs of
           Some r \<Rightarrow> Some r
         | None \<Rightarrow> if c = NL then Some cs else None)
      else None)"

lemma skip_blank_length: "skip_blank cs = Some r \<Longrightarrow> length r < length cs"
proof (induction cs arbitrary: r)
  case Nil
  then show ?case by simp
next
  case (Cons c cs)
  show ?case
  proof (cases "skip_blank cs")
    case None
    with Cons.prems show ?thesis by (simp split: if_splits)
  next
    case (Some r')
    with Cons.prems have "r = r'" by (simp split: if_splits)
    with Cons.IH [OF Some] show ?thesis by simp
  qed
qed

text \<open>
  \<open>re.sub\<close> scans from the left: at a position where the pattern matches, the match is
  replaced by \<open>'\n'\<close> and the scan goes on after the match; elsewhere the character is
  copied and the scan moves one position on.
\<close>

function re_sub_blank :: "pystr \<Rightarrow> pystr" where
  "re_sub_blank [] = []"
| "re_sub_blank (c # cs) =
     (if c = NL then
        (case skip_blank cs of
           Some r \<Rightarrow> NL # re_sub_blank r
         | None \<Rightarrow> c # re_sub_blank cs)
      else c # re_sub_blank cs)"
  by pat_completeness auto

termination
proof (relation "measure length")
  show "wf (measure length)" by simp
next
  fix c :: nat and cs r :: pystr
  assume "skip_blank cs = Some r"
  then have "length r < length cs" by (rule skip_blank_length)
  then show "(r, c # cs) \<in> measure length" by simp
qed simp_all

text \<open>Lines 157 to 159 of \<open>_perform_ocr\<close>: join, substitute, strip.\<close>

definition normalize_text :: "pystr list \<Rightarrow> pystr" where
  "normalize_text text_list = strip (re_sub_blank (join_nl text_list))"

section \<open>The specification's reading of blank-line collapsing\<close>

text \<open>
  The specification says: the lines are joined with newline separators, any run of one or
  more blank lines is collapsed into a single newline, and the result is trimmed.  A blank
  line is a line of whitespace only; collapsing a run of blank lines (with the newlines
  around it) into one newline leaves the two neighbouring lines separated by a single
  newline, which is to drop the blank lines from the list of lines.
\<close>

fun split_nl :: "pystr \<Rightarrow> pystr list" where
  "split_nl [] = [[]]"
| "split_nl (c # cs) =
     (if c = NL then [] # split_nl cs
      else (case split_nl cs of [] \<Rightarrow> [[c]] | l # ls \<Rightarrow> (c # l) # ls))"

definition blank :: "pystr \<Rightarrow> bool" where
  "blank l \<longleftrightarrow> list_all isspace l"

definition spec_collapse :: "pystr \<Rightarrow> pystr" where
  "spec_collapse t = join_nl (filter (\<lambda>l. \<not> blank l) (split_nl t))"

definition spec_normalize :: "pystr list \<Rightarrow> pystr" where
  "spec_normalize text_list = strip (spec_collapse (join_nl text_list))"

section \<open>Decoded JSON and the Python operations applied to it\<close>

text \<open>
  \<open>response.json()\<close> yields an arbitrary decoded JSON value.  A JSON number decodes to a
  Python \<open>int\<close> (unbounded, \<open>JInt\<close>) or to a \<open>float\<close> (\<open>JFloat\<close>).  A finite \<open>float\<close> is
  modelled by the real number it denotes, and so is the clock \<open>time.time()\<close>; the values
  \<open>Infinity\<close> and \<open>NaN\<close>, which \<open>json.loads\<close> also accepts, denote no real and are
  outside this model.  Arithmetic on floats rounds its exact result: the rounding is the
  parameter \<open>round_float\<close> of the world below.  A decoded \<open>dict\<close> is an association list
  (lookup finds the first binding of a key); Python's \<open>None\<close> is \<open>JNull\<close>.
\<close>

datatype json =
    JNull
  | JBool bool
  | JInt int
  | JFloat real
  | JStr pystr
  | JArr "json list"
  | JObj "(pystr \<times> json) list"

text \<open>
  The exceptions raised in the modelled code are all subclasses of \<open>Exception\<close>, which
  is what every \<open>except Exception\<close> of the source catches.  (\<open>BaseException\<close>s such as task
  cancellation are outside this model.)
\<close>

datatype exn =
    TypeError
  | KeyError pystr
  | AttributeError
  | OSError
  | ClientError
  | ValueError
  | OverflowError

text \<open>Truth value of a Python object, as tested by \<open>if x\<close> and \<open>not x\<close>.\<close>

fun truthy :: "json \<Rightarrow> bool" where
  "truthy JNull = False"
| "truthy (JBool b) = b"
| "truthy (JInt i) = (i \<noteq> 0)"
| "truthy (JFloat r) = (r \<noteq> 0)"
| "truthy (JStr s) = (s \<noteq> [])"
| "truthy (JArr xs) = (xs \<noteq> [])"
| "truthy (JObj kvs) = (kvs \<noteq> [])"

text \<open>\<open>key in result\<close>: dict key test, list membership, substring test; else \<open>TypeError\<close>.\<close>

fun py_in :: "pystr \<Rightarrow> json \<Rightarrow> exn + bool" where
  "py_in k (JObj kvs) = Inr (k \<in> set (map fst kvs))"
| "py_in k (JArr xs) = Inr (JStr k \<in> set xs)"
| "py_in k (JStr s) = Inr (sublist k s)"
| "py_in k JNull = Inl TypeError"
| "py_in k (JBool b) = Inl TypeError"
| "py_in k (JInt i) = Inl TypeError"
| "py_in k (JFloat r) = Inl TypeError"

text \<open>\<open>result[key]\<close> with a \<open>str\<close> key: defined on a dict only.\<close>

fun py_getitem :: "json \<Rightarrow> pystr \<Rightarrow> exn + json" where
  "py_getitem (JObj kvs) k = (case map_of kvs k of Some v \<Rightarrow> Inr v | None \<Rightarrow> Inl (KeyError k))"
| "py_getitem JNull k = Inl TypeError"
| "py_getitem (JBool b) k = Inl TypeError"
| "py_getitem (JInt i) k = Inl TypeError"
| "py_getitem (JFloat r) k = Inl TypeError"
| "py_getitem (JStr s) k = Inl TypeError"
| "py_getitem (JArr xs) k = Inl TypeError"

text \<open>\<open>result.get(key, default)\<close>: only a dict has the method.\<close>

fun py_get :: "json \<Rightarrow> pystr \<Rightarrow> json \<Rightarrow> exn + json" where
  "py_get (JObj kvs) k d = (case map_of kvs k of Some v \<Rightarrow> Inr v | None \<Rightarrow> Inr d)"
| "py_get JNull k d = Inl AttributeError"
| "py_get (JBool b) k d = Inl AttributeError"
| "py_get (JInt i) k d = Inl AttributeError"
| "py_get (JFloat r) k d = Inl AttributeError"
| "py_get (JStr s) k d = Inl AttributeError"
| "py_get (JArr xs) k d = Inl AttributeError"

text \<open>
  The right operand of \<open>time.time() + x\<close>, converted as \<open>float.__add__\<close> converts it.  A
  \<open>float\<close> is taken as it is.  An \<open>int\<close> is rounded to the nearest \<open>float\<close> (\<open>fl\<close> is the
  rounding) when its magnitude is below \<open>2 ^ 1024 - 2 ^ 970\<close>, the first value that rounds
  beyond the largest float; from there on the conversion raises \<open>OverflowError\<close>.  A
  \<open>bool\<close> is the \<open>int\<close> 1 or 0.  Any other operand raises \<open>TypeError\<close>.
\<close>

fun py_float :: "(real \<Rightarrow> real) \<Rightarrow> json \<Rightarrow> exn + real" where
  "py_float fl (JInt i) =
     (if \<bar>i\<bar> < 2 ^ 1024 - 2 ^ 970 then Inr (fl (of_int i)) else Inl OverflowError)"
| "py_float fl (JFloat r) = Inr r"
| "py_float fl (JBool b) = Inr (if b then 1 else 0)"
| "py_float fl JNull = Inl TypeError"
| "py_float fl (JStr s) = Inl TypeError"
| "py_float fl (JArr xs) = Inl TypeError"
| "py_float fl (JObj kvs) = Inl TypeError"

text \<open>\<open>for x in v\<close>: the elements of a list, the characters of a str, the keys of a dict.\<close>

fun py_iter :: "json \<Rightarrow> exn + json list" where
  "py_iter (JArr xs) = Inr xs"
| "py_iter (JStr s) = Inr (map (\<lambda>c. JStr [c]) s)"
| "py_iter (JObj kvs) = Inr (map (\<lambda>kv. JStr (fst kv)) kvs)"
| "py_iter JNull = Inl TypeError"
| "py_iter (JBool b) = Inl TypeError"
| "py_iter (JInt i) = Inl TypeError"
| "py_iter (JFloat r) = Inl TypeError"

text \<open>A list comprehension whose element expression may raise: the first exception wins.\<close>

fun map_exn :: "('a \<Rightarrow> exn + 'b) \<Rightarrow> 'a list \<Rightarrow> exn + 'b list" where
  "map_exn f [] = Inr []"
| "map_exn f (x # xs) =
     (case f x of
        Inl e \<Rightarrow> Inl e
      | Inr y \<Rightarrow> (case map_exn f xs of Inl e \<Rightarrow> Inl e | Inr ys \<Rightarrow> Inr (y # ys)))"

text \<open>\<open>'\n'.join\<close> accepts \<open>str\<close> items only.\<close>

fun py_str_item :: "json \<Rightarrow> exn + pystr" where
  "py_str_item (JStr s) = Inr s"
| "py_str_item JNull = Inl TypeError"
| "py_str_item (JBool b) = Inl TypeError"
| "py_str_item (JInt i) = Inl TypeError"
| "py_str_item (JFloat r) = Inl TypeError"
| "py_str_item (JArr xs) = Inl TypeError"
| "py_str_item (JObj kvs) = Inl TypeError"

text \<open>
  Interpolation \<open>{error_msg}\<close> in an f-string is \<open>str()\<close> of the value: the string itself
  for a \<open>str\<close>.  How Python prints the other values (numbers, lists, dicts, \<open>None\<close>,
  booleans) is not modelled; it is the parameter \<open>render\<close>.
\<close>

fun py_format :: "(json \<Rightarrow> pystr) \<Rightarrow> json \<Rightarrow> pystr" where
  "py_format render (JStr s) = s"
| "py_format render JNull = render JNull"
| "py_format render (JBool b) = render (JBool b)"
| "py_format render (JInt i) = render (JInt i)"
| "py_format render (JFloat r) = render (JFloat r)"
| "py_format render (JArr xs) = render (JArr xs)"
| "py_format render (JObj kvs) = render (JObj kvs)"

section \<open>The literals of \<open>main.py\<close>\<close>

definition msg_auth_failed :: pystr where
  "msg_auth_failed = ascii ''OCR'' @ [26381, 21153, 35748, 35777, 22833, 36133]"

definition msg_ocr_failed :: pystr where
  "msg_ocr_failed = ascii ''OCR'' @ [35782, 21035, 22833, 36133] @ ascii '': ''"

definition msg_unknown_error :: pystr where
  "msg_unknown_error = [26410, 30693, 38169, 35823]"

definition msg_no_text :: pystr where
  "msg_no_text =
     [26410, 35782, 21035, 21040, 25991, 23383, 65292, 35831, 26816, 26597, 22270, 29255,
      28165, 26224, 24230]"

definition msg_text_content :: pystr where
  "msg_text_content = [22270, 29255, 20013, 30340, 25991, 23383, 20869, 23481, 65306, NL]"

definition msg_download_failed :: pystr where
  "msg_download_failed = [22270, 29255, 19979, 36733, 22833, 36133]"

definition msg_send_image :: pystr where
  "msg_send_image =
     [35831, 21457, 36865, 19968, 24352, 21253, 21547, 25991, 23383, 30340, 22270, 29255]"

section \<open>The plugin object and its environment\<close>

text \<open>The attributes of \<open>OCRPlugin\<close> set by \<open>__init__\<close>.\<close>

record plugin =
  temp_dir :: pystr
  access_token :: json
  token_expire_time :: real
  api_key :: pystr
  secret_key :: pystr
  token_url :: pystr
  ocr_url :: pystr

text \<open>\<open>os.path.join\<close> of two components, as on a POSIX system (separator \<open>/\<close>, code 47).\<close>

definition path_join :: "pystr \<Rightarrow> pystr \<Rightarrow> pystr" where
  "path_join a b =
     (if b \<noteq> [] \<and> hd b = 47 then b
      else if a = [] \<or> last a = 47 then a @ b
      else a @ 47 # b)"

text \<open>
  \<open>__init__\<close>: no token, expiry time 0, the four settings read from the configuration
  (a dict of strings) with their defaults.  \<open>tmp\<close> is \<open>tempfile.gettempdir()\<close>; the
  creation of the directory (\<open>os.makedirs\<close>) is not modelled.
\<close>

definition config_get :: "(pystr \<rightharpoonup> pystr) \<Rightarrow> pystr \<Rightarrow> pystr \<Rightarrow> pystr" where
  "config_get config k d = (case config k of Some v \<Rightarrow> v | None \<Rightarrow> d)"

definition init :: "pystr \<Rightarrow> (pystr \<rightharpoonup> pystr) \<Rightarrow> plugin" where
  "init tmp config =
     \<lparr> temp_dir = path_join tmp (ascii ''astrbot_ocr''),
       access_token = JNull,
       token_expire_time = 0,
       api_key = config_get config (ascii ''api_key'') [],
       secret_key = config_get config (ascii ''secret_key'') [],
       token_url = config_get config (ascii ''token_url'')
         (ascii ''https://aip.baidubce.com/oauth/2.0/token''),
       ocr_url = config_get config (ascii ''ocr_url'')
         (ascii ''https://aip.baidubce.com/rest/2.0/ocr/v1/accurate_basic'') \<rparr>"

text \<open>
  The outbound requests, in the order they are issued.  \<open>TokenPost url id secret\<close> is the
  POST of line 59; \<open>OcrPost url token image\<close> is the POST of line 148 to
  \<open>f"{ocr_url}?access_token={token}"\<close> carrying the base64 encoding of \<open>image\<close>.
\<close>

datatype request =
    TokenPost pystr pystr pystr
  | OcrPost pystr json "nat list"

text \<open>
  What the outside world answers during one run.  \<open>files\<close> maps the paths that exist to
  their contents; opening, writing or unlinking a path in \<open>denied\<close> raises \<open>OSError\<close>.
  \<open>token_post\<close> and \<open>ocr_post\<close> are the outcomes of the two
  \<open>session.post(...)\<close>/\<open>response.json()\<close> pairs: an exception or the decoded body.
  \<open>get_image\<close> is the outcome of \<open>event.bot.api.call_action("get_image", ...)\<close> followed
  by \<open>.get("file")\<close>.  The three clock readings are those of lines 113, 48 and 65.
  \<open>round_float\<close> is the rounding of an exact result to a \<open>float\<close> that every floating
  point operation of the machine applies; nothing is assumed about it.  (The clock is far
  below the magnitudes at which a sum could round to infinity.)
\<close>

record world =
  files :: "pystr \<rightharpoonup> nat list"
  denied :: "pystr set"
  time_name :: real
  time_check :: real
  time_store :: real
  token_post :: "exn + json"
  ocr_post :: "exn + json"
  get_image :: "pystr \<Rightarrow> exn + pystr option"
  render :: "json \<Rightarrow> pystr"
  round_float :: "real \<Rightarrow> real"

definition path_exists :: "world \<Rightarrow> pystr \<Rightarrow> bool" where
  "path_exists w p \<longleftrightarrow> files w p \<noteq> None"

definition read_file :: "world \<Rightarrow> pystr \<Rightarrow> exn + nat list" where
  "read_file w p =
     (case files w p of
        None \<Rightarrow> Inl OSError
      | Some d \<Rightarrow> if p \<in> denied w then Inl OSError else Inr d)"

definition write_file :: "world \<Rightarrow> pystr \<Rightarrow> nat list \<Rightarrow> exn + world" where
  "write_file w p d =
     (if p \<in> denied w then Inl OSError else Inr (w\<lparr>files := (files w)(p \<mapsto> d)\<rparr>))"

definition unlink :: "world \<Rightarrow> pystr \<Rightarrow> exn + world" where
  "unlink w p =
     (if files w p = None \<or> p \<in> denied w then Inl OSError
      else Inr (w\<lparr>files := (files w)(p := None)\<rparr>))"

section \<open>\<open>get_access_token\<close>\<close>

text \<open>
  The body of the \<open>try\<close> of lines 57 to 70, with the plugin as the assignments have left
  it when the body returns or raises.  Line 65 is \<open>(time.time() + expires_in) - 300\<close> in
  floating point: the operand is converted, and the sum and the difference are each
  rounded.
\<close>

definition exchange :: "plugin \<Rightarrow> world \<Rightarrow> (exn + json) \<times> plugin" where
  "exchange st w =
     (case token_post w of
        Inl e \<Rightarrow> (Inl e, st)
      | Inr result \<Rightarrow>
          (case py_in (ascii ''access_token'') result of
             Inl e \<Rightarrow> (Inl e, st)
           | Inr True \<Rightarrow>
               (case py_getitem result (ascii ''access_token'') of
                  Inl e \<Rightarrow> (Inl e, st)
                | Inr tok \<Rightarrow>
                    (let st1 = st\<lparr>access_token := tok\<rparr> in
                     (case py_getitem result (ascii ''expires_in'') of
                        Inl e \<Rightarrow> (Inl e, st1)
                      | Inr ex \<Rightarrow>
                          (case py_float (round_float w) ex of
                             Inl e \<Rightarrow> (Inl e, st1)
                           | Inr n \<Rightarrow>
                               (let st2 = st1\<lparr>token_expire_time :=
                                      round_float w (round_float w (time_store w + n) - 300)\<rparr>
                                in (Inr (access_token st2), st2))))))
           | Inr False \<Rightarrow>
               (case py_get result (ascii ''error_description'') (JStr msg_unknown_error) of
                  Inl e \<Rightarrow> (Inl e, st)
                | Inr error_msg \<Rightarrow> (Inr JNull, st))))"

text \<open>The result is the returned value (\<open>JNull\<close> for \<open>None\<close>), the plugin, the requests made.\<close>

definition get_access_token :: "plugin \<Rightarrow> world \<Rightarrow> json \<times> plugin \<times> request list" where
  "get_access_token st w =
     (if api_key st = [] \<or> secret_key st = [] then (JNull, st, [])
      else if truthy (access_token st) \<and> time_check w < token_expire_time st
        then (access_token st, st, [])
      else
        (case exchange st w of
           (Inl e, st') \<Rightarrow> (JNull, st', [TokenPost (token_url st) (api_key st) (secret_key st)])
         | (Inr v, st') \<Rightarrow> (v, st', [TokenPost (token_url st) (api_key st) (secret_key st)])))"

text \<open>
  The plugin states that occur: the one \<open>__init__\<close> builds, and those that
  \<open>get_access_token\<close> (the only method that assigns an attribute) leaves.
\<close>

inductive reachable :: "plugin \<Rightarrow> bool" where
  reachable_init: "reachable (init tmp config)"
| reachable_step: "reachable st \<Longrightarrow> reachable (fst (snd (get_access_token st w)))"

section \<open>\<open>download_image\<close>\<close>

text \<open>
  A message component: an \<open>Image\<close> with its \<open>file\<close> attribute and the outcome of its
  \<open>convert_to_file_path()\<close>, or a component of any other class.
\<close>

datatype message =
    Image pystr "exn + pystr"
  | Other

fun is_Image :: "message \<Rightarrow> bool" where
  "is_Image (Image f c) = True"
| "is_Image Other = False"

fun image_file :: "message \<Rightarrow> pystr" where
  "image_file (Image f c) = f"
| "image_file Other = []"

fun image_matches :: "pystr \<Rightarrow> message \<Rightarrow> bool" where
  "image_matches file_id (Image f c) = (f = file_id)"
| "image_matches file_id Other = False"

text \<open>\<open>str(int(x))\<close> for a clock reading: truncation towards zero, printed in decimal.\<close>

fun digits :: "nat \<Rightarrow> pystr" where
  "digits n = (if n < 10 then [48 + n] else digits (n div 10) @ [48 + n mod 10])"

definition str_int :: "int \<Rightarrow> pystr" where
  "str_int i = (if i < 0 then 45 # digits (nat (- i)) else digits (nat i))"

definition py_int :: "real \<Rightarrow> int" where
  "py_int x = (if x < 0 then \<lceil>x\<rceil> else \<lfloor>x\<rfloor>)"

text \<open>Lines 112 to 117: the copy into the plugin's temporary directory.\<close>

definition save_copy ::
  "plugin \<Rightarrow> world \<Rightarrow> nat list \<Rightarrow> pystr \<Rightarrow> (exn + pystr \<times> pystr option) \<times> world" where
  "save_copy st w data original_path =
     (let temp_path =
        path_join (temp_dir st) (ascii ''ocr_'' @ str_int (py_int (time_name w)) @ ascii ''.jpg'')
      in (case write_file w temp_path data of
            Inl e \<Rightarrow> (Inl e, w)
          | Inr w' \<Rightarrow> (Inr (temp_path, Some original_path), w')))"

text \<open>The body of the \<open>try\<close> of lines 83 to 117.\<close>

definition download_body ::
  "plugin \<Rightarrow> world \<Rightarrow> message list \<Rightarrow> pystr \<Rightarrow> (exn + pystr \<times> pystr option) \<times> world" where
  "download_body st w messages file_id =
     (case find (image_matches file_id) messages of
        None \<Rightarrow> (Inr ([], None), w)
      | Some Other \<Rightarrow> (Inr ([], None), w)
      | Some (Image f convert) \<Rightarrow>
          (case convert of
             Inl e \<Rightarrow> (Inl e, w)
           | Inr file_path \<Rightarrow>
               if file_path \<noteq> [] \<and> path_exists w file_path then
                 (case read_file w file_path of
                    Inl e \<Rightarrow> (Inl e, w)
                  | Inr data \<Rightarrow> save_copy st w data file_path)
               else
                 (case get_image w file_id of
                    Inl e \<Rightarrow> (Inl e, w)
                  | Inr None \<Rightarrow> (Inr ([], None), w)
                  | Inr (Some file_path) \<Rightarrow>
                      if file_path = [] then (Inr ([], None), w)
                      else
                        (case read_file w file_path of
                           Inl e \<Rightarrow> (Inl e, w)
                         | Inr data \<Rightarrow> save_copy st w data file_path))))"

text \<open>\<open>download_image\<close>: any exception of the body becomes \<open>("", None)\<close> (lines 119 to 121).\<close>

definition download_image ::
  "plugin \<Rightarrow> world \<Rightarrow> message list \<Rightarrow> pystr \<Rightarrow> (pystr \<times> pystr option) \<times> world" where
  "download_image st w messages file_id =
     (case download_body st w messages file_id of
        (Inl e, w') \<Rightarrow> (([], None), w')
      | (Inr r, w') \<Rightarrow> (r, w'))"

section \<open>\<open>_perform_ocr\<close>\<close>

text \<open>Lines 151 to 159: from the decoded response to the returned text.\<close>

definition recognize :: "(json \<Rightarrow> pystr) \<Rightarrow> json \<Rightarrow> exn + pystr" where
  "recognize rnd result =
     (case py_in (ascii ''error_code'') result of
        Inl e \<Rightarrow> Inl e
      | Inr True \<Rightarrow>
          (case py_get result (ascii ''error_msg'') (JStr msg_unknown_error) of
             Inl e \<Rightarrow> Inl e
           | Inr error_msg \<Rightarrow>
               (case py_getitem result (ascii ''error_code'') of
                  Inl e \<Rightarrow> Inl e
                | Inr code \<Rightarrow> Inr (msg_ocr_failed @ py_format rnd error_msg)))
      | Inr False \<Rightarrow>
          (case py_get result (ascii ''words_result'') (JArr []) of
             Inl e \<Rightarrow> Inl e
           | Inr words_result \<Rightarrow>
               (case py_iter words_result of
                  Inl e \<Rightarrow> Inl e
                | Inr items \<Rightarrow>
                    (case map_exn (\<lambda>words. py_getitem words (ascii ''words'')) items of
                       Inl e \<Rightarrow> Inl e
                     | Inr values \<Rightarrow>
                         (case map_exn py_str_item values of
                            Inl e \<Rightarrow> Inl e
                          | Inr text_list \<Rightarrow> Inr (normalize_text text_list))))))"

text \<open>The body of the \<open>try\<close> of lines 126 to 159.\<close>

definition perform_body ::
  "plugin \<Rightarrow> world \<Rightarrow> pystr \<Rightarrow> (exn + pystr) \<times> plugin \<times> request list" where
  "perform_body st w image_path =
     (case get_access_token st w of
        (token, st', reqs) \<Rightarrow>
          if \<not> truthy token then (Inr msg_auth_failed, st', reqs)
          else
            (case read_file w image_path of
               Inl e \<Rightarrow> (Inl e, st', reqs)
             | Inr image_data \<Rightarrow>
                 (case ocr_post w of
                    Inl e \<Rightarrow> (Inl e, st', reqs @ [OcrPost (ocr_url st') token image_data])
                  | Inr result \<Rightarrow>
                      (recognize (render w) result, st',
                       reqs @ [OcrPost (ocr_url st') token image_data]))))"

text \<open>\<open>_perform_ocr\<close>: any exception of the body becomes \<open>""\<close> (lines 161 to 163).\<close>

definition perform_ocr :: "plugin \<Rightarrow> world \<Rightarrow> pystr \<Rightarrow> pystr \<times> plugin \<times> request list" where
  "perform_ocr st w image_path =
     (case perform_body st w image_path of
        (Inl e, st', reqs) \<Rightarrow> ([], st', reqs)
      | (Inr text, st', reqs) \<Rightarrow> (text, st', reqs))"

section \<open>\<open>cleanup_files\<close>\<close>

text \<open>The two logger calls of the loop, as a trace of what was attempted.\<close>

datatype cleanup_log =
    Deleted pystr
  | DeleteFailed pystr exn

text \<open>
  Lines 168 to 174 (the delay of line 167 is not modelled).  A path is \<open>None\<close> or a str.
  The \<open>try\<close> around \<open>os.unlink\<close> turns its exception into a warning; the loop itself is
  written so that an exception escaping one iteration would end it.
\<close>

definition try_unlink :: "world \<Rightarrow> pystr \<Rightarrow> exn + world \<times> cleanup_log" where
  "try_unlink w p =
     (case unlink w p of
        Inl e \<Rightarrow> Inr (w, DeleteFailed p e)
      | Inr w' \<Rightarrow> Inr (w', Deleted p))"

fun cleanup_files :: "world \<Rightarrow> pystr option list \<Rightarrow> exn + world \<times> cleanup_log list" where
  "cleanup_files w [] = Inr (w, [])"
| "cleanup_files w (path # paths) =
     (if path \<noteq> None \<and> path \<noteq> Some [] \<and> path_exists w (the path) then
        (case try_unlink w (the path) of
           Inl e \<Rightarrow> Inl e
         | Inr (w', entry) \<Rightarrow>
             (case cleanup_files w' paths of
                Inl e \<Rightarrow> Inl e
              | Inr (w'', entries) \<Rightarrow> Inr (w'', entry # entries)))
      else cleanup_files w paths)"

section \<open>\<open>ocr_command\<close>\<close>

text \<open>
  What one invocation of the command handler leaves behind: the replies it yields, the
  argument of each \<open>cleanup_files\<close> task it creates, the image paths \<open>_perform_ocr\<close> was
  called with, the requests issued, and the plugin and the files afterwards.
\<close>

record outcome =
  replies :: "pystr list"
  scheduled :: "pystr list list"
  ocr_calls :: "pystr list"
  requests :: "request list"
  plugin_after :: plugin
  world_after :: world

text \<open>Lines 195 to 200.\<close>

definition files_to_delete :: "world \<Rightarrow> pystr \<Rightarrow> pystr option \<Rightarrow> pystr list" where
  "files_to_delete w temp_path original_path =
     (if temp_path \<noteq> [] \<and> path_exists w temp_path then [temp_path] else []) @
     (case original_path of
        None \<Rightarrow> []
      | Some p \<Rightarrow> if p \<noteq> [] \<and> path_exists w p then [p] else [])"

text \<open>
  Lines 179 to 208.  \<open>download_image\<close> and \<open>_perform_ocr\<close> catch every exception themselves
  and \<open>os.path.exists\<close> raises none, so the \<open>except\<close> of lines 210 to 212 has nothing to
  catch here and has no branch in the model.
\<close>

definition ocr_command :: "plugin \<Rightarrow> world \<Rightarrow> message list \<Rightarrow> outcome" where
  "ocr_command st w messages =
     (let images = filter is_Image messages in
      if images = [] then
        \<lparr> replies = [msg_send_image], scheduled = [], ocr_calls = [], requests = [],
          plugin_after = st, world_after = w \<rparr>
      else
        (case download_image st w messages (image_file (hd images)) of
           ((temp_path, original_path), w1) \<Rightarrow>
             if temp_path = [] then
               \<lparr> replies = [msg_download_failed], scheduled = [], ocr_calls = [],
                 requests = [], plugin_after = st, world_after = w1 \<rparr>
             else
               (case perform_ocr st w1 temp_path of
                  (text, st1, reqs) \<Rightarrow>
                    (let to_delete = files_to_delete w1 temp_path original_path in
                     \<lparr> replies =
                         [if strip text = [] then msg_no_text else msg_text_content @ text],
                       scheduled = (if to_delete \<noteq> [] then [to_delete] else []),
                       ocr_calls = [temp_path], requests = reqs,
                       plugin_after = st1, world_after = w1 \<rparr>))))"

section \<open>Predicates and auxiliary functions used in the statements and proofs\<close>

text \<open>A decoded response that is a dict with the given key.\<close>

fun has_key :: "pystr \<Rightarrow> json \<Rightarrow> bool" where
  "has_key k (JObj kvs) = (k \<in> set (map fst kvs))"
| "has_key k JNull = False"
| "has_key k (JBool b) = False"
| "has_key k (JInt i) = False"
| "has_key k (JFloat r) = False"
| "has_key k (JStr s) = False"
| "has_key k (JArr xs) = False"

text \<open>
  On a list of lines, the substitution drops every blank line but the last line:
  \<open>keep_last\<close> is what it leaves of the lines after the first one, and \<open>drop_blank\<close> is
  where the scan resumes after one match.
\<close>

fun keep_last :: "pystr list \<Rightarrow> pystr list" where
  "keep_last [] = []"
| "keep_last [l] = [l]"
| "keep_last (l # m # ls) = (if blank l then keep_last (m # ls) else l # keep_last (m # ls))"

fun drop_blank :: "pystr list \<Rightarrow> pystr list" where
  "drop_blank [] = []"
| "drop_blank [l] = [l]"
| "drop_blank (l # m # ls) = (if blank l then drop_blank (m # ls) else l # m # ls)"

text \<open>An element of \<open>words_result\<close>: a dict whose \<open>words\<close> field is the str \<open>s\<close>.\<close>

definition has_words :: "json \<Rightarrow> pystr \<Rightarrow> bool" where
  "has_words item s \<longleftrightarrow> (\<exists>fields. item = JObj fields \<and> map_of fields (ascii ''words'') = Some (JStr s))"

text \<open>The path a log entry of \<open>cleanup_files\<close> is about.\<close>

fun attempted :: "cleanup_log \<Rightarrow> pystr" where
  "attempted (Deleted p) = p"
| "attempted (DeleteFailed p e) = p"

text \<open>The test of line 169: the path is neither \<open>None\<close> nor empty, and it exists.\<close>

definition wanted :: "world \<Rightarrow> pystr option \<Rightarrow> bool" where
  "wanted w path \<longleftrightarrow> path \<noteq> None \<and> path \<noteq> Some [] \<and> path_exists w (the path)"

section \<open>A concrete plugin and world\<close>

text \<open>
  A configured plugin, a world in which the token endpoint grants the token \<open>T0\<close> and one
  image file exists, and the inputs on which the theorems below are instantiated.  All
  the numbers of this world are integers below \<open>2 ^ 53\<close>, which are floats, so that its
  floating point operations are exact and \<open>round_float\<close> is the identity on them.
\<close>

definition demo_config :: "pystr \<rightharpoonup> pystr" where
  "demo_config = [ascii ''api_key'' \<mapsto> ascii ''key'', ascii ''secret_key'' \<mapsto> ascii ''secret'']"

definition demo_plugin :: plugin where
  "demo_plugin = init (ascii ''/tmp'') demo_config"

definition demo_token_response :: json where
  "demo_token_response =
     JObj [(ascii ''access_token'', JStr (ascii ''T0'')), (ascii ''expires_in'', JInt 2592000)]"

definition demo_world :: world where
  "demo_world =
     \<lparr> files = [ascii ''/img/a.jpg'' \<mapsto> [255, 216, 255]],
       denied = {},
       time_name = 100,
       time_check = 100,
       time_store = 101,
       token_post = Inr demo_token_response,
       ocr_post = Inr (JObj []),
       get_image = (\<lambda>file_id. Inr None),
       render = (\<lambda>v. []),
       round_float = (\<lambda>x. x) \<rparr>"

text \<open>Two responses that hold an \<open>access_token\<close> and an \<open>expires_in\<close> no float can be made of.\<close>

definition demo_str_expiry :: json where
  "demo_str_expiry =
     JObj [(ascii ''access_token'', JStr (ascii ''T1'')),
           (ascii ''expires_in'', JStr (ascii ''2592000''))]"

definition demo_huge_expiry :: json where
  "demo_huge_expiry =
     JObj [(ascii ''access_token'', JStr (ascii ''T1'')), (ascii ''expires_in'', JInt (10 ^ 400))]"

definition demo_cached :: plugin where
  "demo_cached = fst (snd (get_access_token demo_plugin demo_world))"

definition demo_words :: "pystr list \<Rightarrow> json" where
  "demo_words ws =
     JObj [(ascii ''words_result'', JArr (map (\<lambda>s. JObj [(ascii ''words'', JStr s)]) ws))]"

definition demo_path :: pystr where
  "demo_path = ascii ''/img/a.jpg''"

definition demo_messages :: "message list" where
  "demo_messages = [Other, Image (ascii ''f1'') (Inr demo_path)]"

definition demo_temp :: pystr where
  "demo_temp = ascii ''/tmp/astrbot_ocr/ocr_100.jpg''"

definition demo_error_response :: json where
  "demo_error_response =
     JObj [(ascii ''error_code'', JInt 17),
           (ascii ''error_msg'', JStr (ascii ''Open api daily request limit reached''))]"

text \<open>The world once \<open>download_image\<close> has written the copy.\<close>

definition demo_after_download :: "world \<Rightarrow> world" where
  "demo_after_download w = w\<lparr>files := (files w)(demo_temp \<mapsto> [255, 216, 255])\<rparr>"

definition demo_locked :: pystr where
  "demo_locked = ascii ''/img/locked.jpg''"

definition demo_cleanup_world :: world where
  "demo_cleanup_world =
     demo_world\<lparr>files := [demo_path \<mapsto> [255, 216, 255], demo_locked \<mapsto> [0]],
                denied := {demo_locked}\<rparr>"

definition demo_paths :: "pystr option list" where
  "demo_paths = [Some demo_locked, None, Some [], Some (ascii ''/img/gone.jpg''), Some demo_path]"

section \<open>Blank-line collapsing: the substitution against the specification\<close>

lemma isspace_NL: "isspace NL" by (simp add: isspace_def)

lemma split_nl_nonempty: "split_nl t \<noteq> []"
  by (induction t) (auto split: list.splits)

lemma join_split_nl: "join_nl (split_nl t) = t"
proof (induction t)
  case Nil show ?case by simp
next
  case (Cons c cs)
  obtain l ls where s: "split_nl cs = l # ls" using split_nl_nonempty [of cs] by (cases "split_nl cs") auto
  with Cons show ?case by (cases ls) auto
qed

lemma split_nl_lines: "l \<in> set (split_nl t) \<Longrightarrow> NL \<notin> set l"
proof (induction t arbitrary: l)
  case Nil then show ?case by simp
next
  case (Cons c cs)
  then show ?case by (auto split: if_splits list.splits)
qed

lemma re_sub_blank_line: "NL \<notin> set l \<Longrightarrow> re_sub_blank (l @ r) = l @ re_sub_blank r"
  by (induction l) auto

lemma skip_blank_nonblank: "NL \<notin> set l \<Longrightarrow> \<not> blank l \<Longrightarrow> skip_blank (l @ r) = None"
  by (induction l) (auto simp: blank_def)

lemma skip_blank_end: "NL \<notin> set l \<Longrightarrow> skip_blank l = None"
  by (induction l) auto

lemma skip_blank_blank:
  "NL \<notin> set l \<Longrightarrow> blank l \<Longrightarrow>
   skip_blank (l @ NL # r) = Some (case skip_blank r of Some r' \<Rightarrow> r' | None \<Rightarrow> r)"
  by (induction l) (auto simp: blank_def isspace_NL split: option.splits)

lemma skip_blank_lines:
  "\<forall>x \<in> set (l # ls). NL \<notin> set x \<Longrightarrow>
   skip_blank (join_nl (l # ls)) = (if blank l \<and> ls \<noteq> [] then Some (join_nl (drop_blank ls)) else None)"
proof (induction ls arbitrary: l)
  case Nil
  then show ?case by (simp add: skip_blank_end)
next
  case (Cons m ms)
  have nl: "NL \<notin> set l" using Cons.prems by simp
  have ih: "skip_blank (join_nl (m # ms)) = (if blank m \<and> ms \<noteq> [] then Some (join_nl (drop_blank ms)) else None)"
    using Cons.IH [of m] Cons.prems by simp
  show ?case
  proof (cases "blank l")
    case False
    then show ?thesis using nl by (simp add: skip_blank_nonblank)
  next
    case True
    then show ?thesis using nl ih by (cases ms) (simp_all add: skip_blank_blank)
  qed
qed

lemma drop_blank_nonempty: "ls \<noteq> [] \<Longrightarrow> drop_blank ls \<noteq> []"
  by (induction ls rule: drop_blank.induct) auto

lemma drop_blank_length: "length (drop_blank ls) \<le> length ls"
  by (induction ls rule: drop_blank.induct) auto

lemma drop_blank_set: "set (drop_blank ls) \<subseteq> set ls"
  by (induction ls rule: drop_blank.induct) auto

lemma keep_last_drop_blank: "keep_last (drop_blank ls) = keep_last ls"
  by (induction ls rule: drop_blank.induct) auto

lemma drop_blank_head: "drop_blank ls = x # xs \<Longrightarrow> keep_last (x # xs) = x # keep_last xs"
  by (induction ls rule: drop_blank.induct) (auto split: if_splits)

lemma keep_last_nonempty: "ls \<noteq> [] \<Longrightarrow> keep_last ls \<noteq> []"
  by (induction ls rule: keep_last.induct) auto

lemma join_nl_Cons: "ls \<noteq> [] \<Longrightarrow> join_nl (l # ls) = l @ NL # join_nl ls"
  by (cases ls) auto

lemma re_sub_blank_lines:
  "\<forall>x \<in> set (l # ls). NL \<notin> set x \<Longrightarrow> re_sub_blank (join_nl (l # ls)) = join_nl (l # keep_last ls)"
proof (induction "length ls" arbitrary: l ls rule: less_induct)
  case less
  have nl: "NL \<notin> set l" using less.prems by simp
  show ?case
  proof (cases ls)
    case Nil
    then show ?thesis using re_sub_blank_line [OF nl, of "[]"] by simp
  next
    case (Cons m ms)
    have lines: "\<forall>x \<in> set (m # ms). NL \<notin> set x" using less.prems Cons by simp
    have sk: "skip_blank (join_nl (m # ms)) = (if blank m \<and> ms \<noteq> [] then Some (join_nl (drop_blank ms)) else None)"
      by (rule skip_blank_lines [OF lines])
    have step: "re_sub_blank (join_nl (l # ls)) = l @ re_sub_blank (NL # join_nl (m # ms))"
      using Cons re_sub_blank_line [OF nl] by simp
    show ?thesis
    proof (cases "blank m \<and> ms \<noteq> []")
      case True
      then obtain x xs where d: "drop_blank ms = x # xs"
        using drop_blank_nonempty [of ms] by (cases "drop_blank ms") auto
      have len: "length xs < length ls" using drop_blank_length [of ms] d Cons by simp
      have xl: "\<forall>y \<in> set (x # xs). NL \<notin> set y" using drop_blank_set [of ms] d lines by auto
      have "re_sub_blank (join_nl (x # xs)) = join_nl (x # keep_last xs)"
        by (rule less.hyps [OF len xl])
      also have "x # keep_last xs = keep_last ms"
        using drop_blank_head [OF d] keep_last_drop_blank [of ms] d by simp
      finally have r: "re_sub_blank (join_nl (drop_blank ms)) = join_nl (keep_last ms)" using d by simp
      have k: "keep_last ls = keep_last ms" using True Cons by (cases ms) auto
      have "re_sub_blank (NL # join_nl (m # ms)) = NL # join_nl (keep_last ms)"
        using sk True r by simp
      then show ?thesis using step k keep_last_nonempty [of ms] True by (simp add: join_nl_Cons)
    next
      case False
      have len: "length ms < length ls" using Cons by simp
      have ih: "re_sub_blank (join_nl (m # ms)) = join_nl (m # keep_last ms)"
        by (rule less.hyps [OF len lines])
      have k: "keep_last ls = m # keep_last ms" using False Cons by (cases ms) auto
      have "re_sub_blank (NL # join_nl (m # ms)) = NL # join_nl (m # keep_last ms)"
        using sk False ih by simp
      then show ?thesis using step k by simp
    qed
  qed
qed

lemma strip_blank_prefix: "blank a \<Longrightarrow> strip (a @ b) = strip b"
  by (simp add: strip_def lstrip_def blank_def list_all_iff dropWhile_append2)

lemma strip_Nil: "strip [] = []"
  by (simp add: strip_def lstrip_def rstrip_def)

lemma strip_blank: "blank a \<Longrightarrow> strip a = []"
proof -
  assume "blank a"
  then have d: "dropWhile isspace a = []"
    by (induction a) (simp_all add: blank_def)
  show ?thesis unfolding strip_def lstrip_def rstrip_def d by simp
qed

lemma rstrip_blank_suffix: "blank b \<Longrightarrow> rstrip (a @ b) = rstrip a"
proof -
  assume "blank b"
  then have "dropWhile isspace (rev b @ rev a) = dropWhile isspace (rev a)"
    by (intro dropWhile_append2) (simp add: blank_def list_all_iff)
  then show ?thesis by (simp add: rstrip_def)
qed

lemma strip_blank_suffix: "blank b \<Longrightarrow> strip (a @ b) = strip a"
proof (cases "blank a")
  case True
  assume "blank b"
  then have "blank (a @ b)" using True by (simp add: blank_def)
  then show ?thesis using True by (simp add: strip_blank)
next
  case False
  assume b: "blank b"
  from False have "lstrip (a @ b) = lstrip a @ b"
    by (auto simp: lstrip_def blank_def list_all_iff dropWhile_append1 dropWhile_append)
  then show ?thesis using b by (simp add: strip_def rstrip_blank_suffix)
qed

lemma blank_NL_Cons: "blank (NL # b) = blank b"
  by (simp add: blank_def isspace_NL)

lemma strip_join_blank_first: "blank b \<Longrightarrow> strip (join_nl (b # xs)) = strip (join_nl xs)"
proof (cases xs)
  case Nil
  assume "blank b" then show ?thesis using Nil by (simp add: strip_blank strip_Nil)
next
  case (Cons y ys)
  assume "blank b"
  then have "blank (b @ [NL])" by (simp add: blank_def isspace_NL)
  from strip_blank_prefix [OF this, of "join_nl xs"] show ?thesis using Cons by simp
qed

lemma join_nl_snoc: "xs \<noteq> [] \<Longrightarrow> join_nl (xs @ [b]) = join_nl xs @ NL # b"
  by (induction xs rule: join_nl.induct) auto

lemma strip_join_blank_last: "blank b \<Longrightarrow> strip (join_nl (xs @ [b])) = strip (join_nl xs)"
proof (cases "xs = []")
  case True
  assume "blank b" then show ?thesis using True by (simp add: strip_blank strip_Nil)
next
  case False
  assume "blank b"
  then have "blank (NL # b)" by (simp add: blank_NL_Cons)
  from strip_blank_suffix [OF this, of "join_nl xs"] show ?thesis using False by (simp add: join_nl_snoc)
qed

lemma keep_last_filter:
  "keep_last ls = filter (\<lambda>l. \<not> blank l) ls @ (if ls \<noteq> [] \<and> blank (last ls) then [last ls] else [])"
  by (induction ls rule: keep_last.induct) auto

lemma strip_keep_last:
  "strip (join_nl (l # keep_last ls)) = strip (join_nl (filter (\<lambda>l. \<not> blank l) (l # ls)))"
proof -
  let ?f = "filter (\<lambda>l. \<not> blank l) ls"
  have a: "strip (join_nl (l # keep_last ls)) = strip (join_nl (l # ?f))"
  proof (cases "ls \<noteq> [] \<and> blank (last ls)")
    case True
    then have "l # keep_last ls = (l # ?f) @ [last ls]" by (simp add: keep_last_filter)
    moreover from True have b: "blank (last ls)" by simp
    have "strip (join_nl ((l # ?f) @ [last ls])) = strip (join_nl (l # ?f))"
      by (rule strip_join_blank_last [OF b])
    ultimately show ?thesis by simp
  next
    case False
    then have "keep_last ls = ?f" using keep_last_filter [of ls] by auto
    then show ?thesis by simp
  qed
  show ?thesis
  proof (cases "blank l")
    case True
    then show ?thesis using a strip_join_blank_first [OF True, of ?f] by simp
  next
    case False
    then show ?thesis using a by simp
  qed
qed

lemma normalize_text_spec: "normalize_text ws = spec_normalize ws"
proof -
  let ?t = "join_nl ws"
  obtain l ls where s: "split_nl ?t = l # ls"
    using split_nl_nonempty [of ?t] by (cases "split_nl ?t") auto
  have lines: "\<forall>x \<in> set (l # ls). NL \<notin> set x" using split_nl_lines [of _ ?t] s by auto
  have t: "?t = join_nl (l # ls)" using join_split_nl [of ?t] s by simp
  have "re_sub_blank ?t = join_nl (l # keep_last ls)"
    using re_sub_blank_lines [OF lines] t by simp
  then show ?thesis
    using strip_keep_last [of l ls] s by (simp add: normalize_text_def spec_normalize_def spec_collapse_def)
qed

section \<open>The token cache\<close>

lemma ascii_simps: "ascii [] = []" "ascii (c # cs) = of_char c # ascii cs"
  by (simp_all add: ascii_def)

lemma key_in_map_of: "k \<in> set (map fst kvs) \<longleftrightarrow> map_of kvs k \<noteq> None"
  by (simp add: map_of_eq_None_iff)

lemma exchange_fails_unchanged:
  assumes "token_post w = Inl e \<or> (\<exists>j. token_post w = Inr j \<and> \<not> has_key (ascii ''access_token'') j)"
  shows "exchange st w = (Inr JNull, st) \<or> (\<exists>e'. exchange st w = (Inl e', st))"
  using assms
proof
  assume "token_post w = Inl e"
  then show ?thesis by (simp add: exchange_def)
next
  assume "\<exists>j. token_post w = Inr j \<and> \<not> has_key (ascii ''access_token'') j"
  then obtain j where j: "token_post w = Inr j" "\<not> has_key (ascii ''access_token'') j" by blast
  show ?thesis
  proof (cases j)
    case (JObj kvs)
    with j show ?thesis by (simp add: exchange_def split: option.splits)
  next
    case (JArr xs)
    with j show ?thesis by (simp add: exchange_def split: bool.splits)
  next
    case (JStr s)
    with j show ?thesis by (simp add: exchange_def split: bool.splits)
  qed (use j in \<open>simp_all add: exchange_def\<close>)
qed

lemma exchange_keeps_settings:
  "api_key (snd (exchange st w)) = api_key st \<and> secret_key (snd (exchange st w)) = secret_key st"
  by (simp add: exchange_def Let_def split: sum.splits bool.splits)

lemma get_access_token_keeps_settings:
  "api_key (fst (snd (get_access_token st w))) = api_key st \<and>
   secret_key (fst (snd (get_access_token st w))) = secret_key st"
  using exchange_keeps_settings [of st w]
  by (auto simp: get_access_token_def split: prod.splits sum.splits)

lemma reachable_keys:
  "reachable st \<Longrightarrow> truthy (access_token st) \<Longrightarrow> api_key st \<noteq> [] \<and> secret_key st \<noteq> []"
proof (induction rule: reachable.induct)
  case (reachable_init tmp config)
  then show ?case by (simp add: init_def)
next
  case (reachable_step st w)
  show ?case
  proof (cases "api_key st = [] \<or> secret_key st = []")
    case True
    then have "fst (snd (get_access_token st w)) = st" by (auto simp: get_access_token_def)
    with reachable_step show ?thesis by simp
  next
    case False
    then show ?thesis using get_access_token_keeps_settings [of st w] by simp
  qed
qed

text \<open>
  Claim C9.  Whenever the \<open>api_key\<close> or the \<open>secret_key\<close> is empty, \<open>get_access_token\<close>
  returns \<open>None\<close>, leaves the plugin as it is and issues no request.
\<close>

theorem get_access_token_not_configured:
  "api_key st = [] \<or> secret_key st = [] \<Longrightarrow> get_access_token st w = (JNull, st, [])"
  by (auto simp: get_access_token_def)

text \<open>
  Claim C2.  In every state the plugin can be in where a token is cached and the clock is
  strictly before the stored expiry time, \<open>get_access_token\<close> returns the cached token,
  issues no request, and leaves the cached token and expiry time (the whole plugin)
  unchanged.  The stored expiry time already carries the 300 second margin, see C3.
\<close>

theorem get_access_token_cached:
  assumes "reachable st"
      and "truthy (access_token st)"
      and "time_check w < token_expire_time st"
  shows "get_access_token st w = (access_token st, st, [])"
proof -
  have "api_key st \<noteq> [] \<and> secret_key st \<noteq> []" using assms(1,2) by (rule reachable_keys)
  then show ?thesis using assms(2,3) by (simp add: get_access_token_def)
qed

text \<open>
  Claim C3, as amended.  When the exchange is made (credentials configured, no valid cached
  token) and the response is a dict with an \<open>access_token\<close> and an \<open>expires_in\<close> that
  converts to a float \<open>n\<close> (a float, a bool, or an int of magnitude below
  \<open>2 ^ 1024 - 2 ^ 970\<close>), \<open>get_access_token\<close> stores the token, sets the expiry time to the
  clock reading of line 65 plus \<open>n\<close> minus 300, each of the two operations rounded as
  floating point rounds it, and returns the token; one request has been issued.
\<close>

theorem get_access_token_exchange:
  assumes "api_key st \<noteq> []" and "secret_key st \<noteq> []"
      and "\<not> (truthy (access_token st) \<and> time_check w < token_expire_time st)"
      and "token_post w = Inr (JObj kvs)"
      and "map_of kvs (ascii ''access_token'') = Some tok"
      and "map_of kvs (ascii ''expires_in'') = Some ex"
      and "py_float (round_float w) ex = Inr n"
  shows "get_access_token st w =
           (tok,
            st\<lparr>access_token := tok,
               token_expire_time := round_float w (round_float w (time_store w + n) - 300)\<rparr>,
            [TokenPost (token_url st) (api_key st) (secret_key st)])"
proof -
  have "ascii ''access_token'' \<in> set (map fst kvs)" using assms(5) by (force dest: map_of_SomeD)
  then have "exchange st w =
      (Inr tok, st\<lparr>access_token := tok,
         token_expire_time := round_float w (round_float w (time_store w + n) - 300)\<rparr>)"
    using assms(4,5,6,7) by (simp add: exchange_def)
  then show ?thesis using assms(1,2,3) by (simp add: get_access_token_def)
qed

text \<open>
  Claim C4.  When no valid cached token stands in the way of the exchange and the exchange
  fails, because the request or the decoding raises or because the response is not a dict
  holding an \<open>access_token\<close>, \<open>get_access_token\<close> returns \<open>None\<close> and the plugin, hence
  the previously cached token and expiry time, is unchanged.
\<close>

theorem get_access_token_exchange_fails:
  assumes "\<not> (truthy (access_token st) \<and> time_check w < token_expire_time st)"
      and "token_post w = Inl e \<or> (\<exists>j. token_post w = Inr j \<and> \<not> has_key (ascii ''access_token'') j)"
  shows "fst (get_access_token st w) = JNull \<and> fst (snd (get_access_token st w)) = st"
proof (cases "api_key st = [] \<or> secret_key st = []")
  case True
  then show ?thesis by (auto simp: get_access_token_def)
next
  case False
  from exchange_fails_unchanged [OF assms(2), of st] show ?thesis
    using False assms(1) by (auto simp: get_access_token_def)
qed

lemma demo_plugin_fields:
  "api_key demo_plugin = ascii ''key''" "secret_key demo_plugin = ascii ''secret''"
  "access_token demo_plugin = JNull" "token_expire_time demo_plugin = 0"
  by (simp_all add: demo_plugin_def init_def config_get_def demo_config_def ascii_simps)

lemma demo_world_fields:
  "time_check demo_world = 100" "time_store demo_world = 101" "time_name demo_world = 100"
  "round_float demo_world = (\<lambda>x. x)"
  "token_post demo_world = Inr demo_token_response" "denied demo_world = {}"
  "files demo_world = [ascii ''/img/a.jpg'' \<mapsto> [255, 216, 255]]"
  by (simp_all add: demo_world_def)

lemma demo_cached_eq:
  "demo_cached = demo_plugin\<lparr>access_token := JStr (ascii ''T0''), token_expire_time := 2591801\<rparr>"
  by (simp add: demo_cached_def get_access_token_def exchange_def demo_plugin_fields
      demo_world_fields demo_token_response_def ascii_simps)

theorem get_access_token_not_configured_witness:
  "(api_key (demo_plugin\<lparr>api_key := []\<rparr>) = [] \<or> secret_key (demo_plugin\<lparr>api_key := []\<rparr>) = []) \<and>
   get_access_token (demo_plugin\<lparr>api_key := []\<rparr>) demo_world = (JNull, demo_plugin\<lparr>api_key := []\<rparr>, [])"
  using get_access_token_not_configured [of "demo_plugin\<lparr>api_key := []\<rparr>" demo_world] by simp

theorem get_access_token_cached_witness:
  "reachable demo_cached \<and> truthy (access_token demo_cached) \<and>
   time_check demo_world < token_expire_time demo_cached \<and>
   get_access_token demo_cached demo_world = (JStr (ascii ''T0''), demo_cached, [])"
proof -
  have r: "reachable demo_cached"
    unfolding demo_cached_def demo_plugin_def by (intro reachable_step reachable_init)
  have t: "truthy (access_token demo_cached)" by (simp add: demo_cached_eq ascii_simps)
  have c: "time_check demo_world < token_expire_time demo_cached"
    by (simp add: demo_cached_eq demo_world_fields)
  show ?thesis using get_access_token_cached [OF r t c] r t c by (simp add: demo_cached_eq)
qed

theorem get_access_token_exchange_witness:
  "py_float (round_float demo_world) (JInt 2592000) = Inr 2592000 \<and>
   get_access_token demo_plugin demo_world =
     (JStr (ascii ''T0''),
      demo_plugin\<lparr>access_token := JStr (ascii ''T0''), token_expire_time := 2591801\<rparr>,
      [TokenPost (token_url demo_plugin) (ascii ''key'') (ascii ''secret'')])"
proof -
  have n: "py_float (round_float demo_world) (JInt 2592000) = Inr 2592000"
    by (simp add: demo_world_fields)
  have "get_access_token demo_plugin demo_world =
     (JStr (ascii ''T0''),
      demo_plugin\<lparr>access_token := JStr (ascii ''T0''),
        token_expire_time :=
          round_float demo_world (round_float demo_world (time_store demo_world + 2592000) - 300)\<rparr>,
      [TokenPost (token_url demo_plugin) (api_key demo_plugin) (secret_key demo_plugin)])"
    by (rule get_access_token_exchange
          [where kvs = "[(ascii ''access_token'', JStr (ascii ''T0'')),
                         (ascii ''expires_in'', JInt 2592000)]"
             and ex = "JInt 2592000", OF _ _ _ _ _ _ n])
      (simp_all add: demo_plugin_fields demo_world_fields demo_token_response_def ascii_simps)
  then show ?thesis using n by (simp add: demo_plugin_fields demo_world_fields)
qed

text \<open>
  The claim as first worded, for every response that holds an \<open>access_token\<close> and an
  \<open>expires_in\<close>, fails: with \<open>expires_in\<close> the str \<open>"2592000"\<close>, and with \<open>expires_in\<close> the
  int \<open>10 ^ 400\<close>, line 65 raises (\<open>TypeError\<close>, \<open>OverflowError\<close>), \<open>get_access_token\<close> returns
  \<open>None\<close> and not the token \<open>T1\<close> of the response, and the expiry time is still 0.
\<close>

theorem get_access_token_exchange_counterexample:
  "fst (get_access_token demo_plugin (demo_world\<lparr>token_post := Inr demo_str_expiry\<rparr>)) = JNull \<and>
   fst (get_access_token demo_plugin (demo_world\<lparr>token_post := Inr demo_str_expiry\<rparr>))
     \<noteq> JStr (ascii ''T1'') \<and>
   token_expire_time
     (fst (snd (get_access_token demo_plugin (demo_world\<lparr>token_post := Inr demo_str_expiry\<rparr>)))) = 0 \<and>
   fst (get_access_token demo_plugin (demo_world\<lparr>token_post := Inr demo_huge_expiry\<rparr>)) = JNull \<and>
   fst (get_access_token demo_plugin (demo_world\<lparr>token_post := Inr demo_huge_expiry\<rparr>))
     \<noteq> JStr (ascii ''T1'') \<and>
   token_expire_time
     (fst (snd (get_access_token demo_plugin (demo_world\<lparr>token_post := Inr demo_huge_expiry\<rparr>)))) = 0"
  by (simp add: get_access_token_def exchange_def demo_plugin_fields demo_world_fields
      demo_str_expiry_def demo_huge_expiry_def ascii_simps)

theorem get_access_token_exchange_fails_witness:
  "fst (get_access_token demo_cached
         (demo_world\<lparr>time_check := 2600000, token_post := Inl ClientError\<rparr>)) = JNull \<and>
   fst (snd (get_access_token demo_cached
         (demo_world\<lparr>time_check := 2600000, token_post := Inl ClientError\<rparr>))) = demo_cached \<and>
   fst (get_access_token demo_cached
         (demo_world\<lparr>time_check := 2600000,
            token_post := Inr (JObj [(ascii ''error_description'', JStr (ascii ''unknown client id''))])\<rparr>)) = JNull \<and>
   fst (snd (get_access_token demo_cached
         (demo_world\<lparr>time_check := 2600000,
            token_post := Inr (JObj [(ascii ''error_description'', JStr (ascii ''unknown client id''))])\<rparr>))) = demo_cached"
proof -
  let ?w1 = "demo_world\<lparr>time_check := 2600000, token_post := Inl ClientError\<rparr>"
  let ?j = "JObj [(ascii ''error_description'', JStr (ascii ''unknown client id''))]"
  let ?w2 = "demo_world\<lparr>time_check := 2600000, token_post := Inr ?j\<rparr>"
  have a: "\<not> (truthy (access_token demo_cached) \<and> time_check ?w1 < token_expire_time demo_cached)"
    by (simp add: demo_cached_eq)
  have b: "\<not> (truthy (access_token demo_cached) \<and> time_check ?w2 < token_expire_time demo_cached)"
    by (simp add: demo_cached_eq)
  have c: "token_post ?w1 = Inl ClientError \<or>
      (\<exists>j. token_post ?w1 = Inr j \<and> \<not> has_key (ascii ''access_token'') j)" by simp
  have d: "token_post ?w2 = Inl ClientError \<or>
      (\<exists>j. token_post ?w2 = Inr j \<and> \<not> has_key (ascii ''access_token'') j)"
    by (simp add: ascii_simps)
  show ?thesis
    using get_access_token_exchange_fails [OF a c] get_access_token_exchange_fails [OF b d]
    by simp
qed

section \<open>Recognition\<close>

lemma map_exn_words:
  "list_all2 has_words items ws \<Longrightarrow>
   map_exn (\<lambda>words. py_getitem words (ascii ''words'')) items = Inr (map JStr ws)"
  by (induction rule: list_all2_induct) (auto simp: has_words_def)

lemma map_exn_str_items: "map_exn py_str_item (map JStr ws) = Inr ws"
  by (induction ws) auto

lemma recognize_words:
  assumes "ascii ''error_code'' \<notin> set (map fst kvs)"
      and "map_of kvs (ascii ''words_result'') = Some (JArr items)"
      and "list_all2 has_words items ws"
  shows "recognize rnd (JObj kvs) = Inr (spec_normalize ws)"
  using assms
  by (simp add: recognize_def map_exn_words map_exn_str_items normalize_text_spec)

lemma key_has_value: "k \<in> set (map fst kvs) \<Longrightarrow> \<exists>v. map_of kvs k = Some v"
  using key_in_map_of [of k kvs] by blast

lemma recognize_error:
  assumes "ascii ''error_code'' \<in> set (map fst kvs)"
  shows "recognize rnd (JObj kvs) =
    Inr (msg_ocr_failed @ py_format rnd
      (case map_of kvs (ascii ''error_msg'') of Some m \<Rightarrow> m | None \<Rightarrow> JStr msg_unknown_error))"
proof -
  obtain c where "map_of kvs (ascii ''error_code'') = Some c"
    using key_has_value [OF assms] by blast
  then show ?thesis using assms by (simp add: recognize_def split: option.splits)
qed

text \<open>
  Claim C1.  When a token is available, the image is read and the recognition endpoint
  answers a dict without \<open>error_code\<close> whose \<open>words_result\<close> is a list of elements with
  \<open>words\<close> strings \<open>ws\<close> (in response order), \<open>_perform_ocr\<close> returns those strings joined
  with newlines, with the blank lines dropped (every run of blank lines collapsed into one
  newline) and whitespace trimmed at both ends, as the specification words it.
\<close>

theorem perform_ocr_words_result:
  assumes "get_access_token st w = (token, st', reqs)"
      and "truthy token"
      and "read_file w image_path = Inr image_data"
      and "ocr_post w = Inr (JObj kvs)"
      and "ascii ''error_code'' \<notin> set (map fst kvs)"
      and "map_of kvs (ascii ''words_result'') = Some (JArr items)"
      and "list_all2 has_words items ws"
  shows "fst (perform_ocr st w image_path) = strip (spec_collapse (join_nl ws))"
  using assms(1-4) recognize_words [OF assms(5-7)]
  by (simp add: perform_ocr_def perform_body_def spec_normalize_def)

text \<open>
  Claim C6.  Once a token has been obtained, an exception raised by reading the image
  file, or by the recognition request or the decoding of its response, is caught:
  \<open>_perform_ocr\<close> returns the empty string.
\<close>

theorem perform_ocr_exception:
  assumes "get_access_token st w = (token, st', reqs)"
      and "truthy token"
      and "read_file w image_path = Inl e \<or> ocr_post w = Inl e"
  shows "fst (perform_ocr st w image_path) = []"
  using assms by (auto simp: perform_ocr_def perform_body_def split: sum.splits)


lemma demo_get_access_token:
  "get_access_token demo_plugin (demo_world\<lparr>ocr_post := r\<rparr>) =
     (JStr (ascii ''T0''), demo_cached,
      [TokenPost (token_url demo_plugin) (ascii ''key'') (ascii ''secret'')])"
  by (simp add: demo_cached_eq get_access_token_def exchange_def demo_plugin_fields
      demo_world_fields demo_token_response_def ascii_simps)

lemma demo_read_file:
  "read_file (demo_world\<lparr>ocr_post := r\<rparr>) demo_path = Inr [255, 216, 255]"
  by (simp add: read_file_def demo_world_fields demo_path_def)

lemma demo_has_words: "list_all2 has_words (map (\<lambda>s. JObj [(ascii ''words'', JStr s)]) ws) ws"
  by (induction ws) (simp_all add: has_words_def)

lemma demo_normalize:
  "strip (spec_collapse (join_nl [ascii ''A'', ascii ''B''])) = ascii ''A'' @ NL # ascii ''B''"
  "strip (spec_collapse (join_nl [ascii ''A'', [], [], ascii ''B''])) = ascii ''A'' @ NL # ascii ''B''"
  "strip (spec_collapse (join_nl [])) = []"
  by (simp_all add: spec_collapse_def blank_def isspace_def strip_def lstrip_def rstrip_def
      ascii_simps)

theorem perform_ocr_words_result_witness:
  "fst (perform_ocr demo_plugin (demo_world\<lparr>ocr_post := Inr (demo_words [ascii ''A'', ascii ''B''])\<rparr>)
        demo_path) = ascii ''A'' @ NL # ascii ''B'' \<and>
   fst (perform_ocr demo_plugin
        (demo_world\<lparr>ocr_post := Inr (demo_words [ascii ''A'', [], [], ascii ''B''])\<rparr>)
        demo_path) = ascii ''A'' @ NL # ascii ''B'' \<and>
   fst (perform_ocr demo_plugin (demo_world\<lparr>ocr_post := Inr (demo_words [])\<rparr>) demo_path) = []"
proof -
  have k: "ascii ''error_code'' \<notin> set (map fst [(ascii ''words_result'', v)])" for v :: json
    by (simp add: ascii_simps)
  have t: "truthy (JStr (ascii ''T0''))" by (simp add: ascii_simps)
  have r: "fst (perform_ocr demo_plugin (demo_world\<lparr>ocr_post := Inr (demo_words ws)\<rparr>) demo_path)
      = strip (spec_collapse (join_nl ws))" for ws
    by (rule perform_ocr_words_result [OF demo_get_access_token t demo_read_file _ k _ demo_has_words])
      (simp_all add: demo_words_def)
  show ?thesis by (simp only: r demo_normalize)
qed

theorem perform_ocr_exception_witness:
  "fst (perform_ocr demo_plugin (demo_world\<lparr>ocr_post := Inl ClientError\<rparr>) demo_path) = [] \<and>
   fst (perform_ocr demo_plugin (demo_world\<lparr>ocr_post := Inr (JObj [])\<rparr>) (ascii ''/img/gone.jpg'')) = []"
proof -
  have t: "truthy (JStr (ascii ''T0''))" by (simp add: ascii_simps)
  have a: "read_file (demo_world\<lparr>ocr_post := Inl ClientError\<rparr>) demo_path = Inl ClientError \<or>
           ocr_post (demo_world\<lparr>ocr_post := Inl ClientError\<rparr>) = Inl ClientError" by simp
  have b: "read_file (demo_world\<lparr>ocr_post := Inr (JObj [])\<rparr>) (ascii ''/img/gone.jpg'') = Inl OSError \<or>
           ocr_post (demo_world\<lparr>ocr_post := Inr (JObj [])\<rparr>) = Inl OSError"
    by (simp add: read_file_def demo_world_fields ascii_simps)
  show ?thesis
    using perform_ocr_exception [OF demo_get_access_token t a]
      perform_ocr_exception [OF demo_get_access_token t b] by simp
qed

section \<open>The command handler\<close>

lemma path_join_nonempty: "b \<noteq> [] \<Longrightarrow> path_join a b \<noteq> []"
  by (simp add: path_join_def)

lemma save_copy_result:
  assumes "save_copy st w data orig = (Inr (tp, op), w1)"
  shows "tp \<noteq> [] \<and> op = Some orig \<and> read_file w1 tp = Inr data \<and> path_exists w1 tp \<and>
         denied w1 = denied w"
proof -
  let ?tp = "path_join (temp_dir st) (ascii ''ocr_'' @ str_int (py_int (time_name w)) @ ascii ''.jpg'')"
  have ne: "?tp \<noteq> []" by (rule path_join_nonempty) (simp add: ascii_simps)
  from assms have ok: "?tp \<notin> denied w" and tp: "tp = ?tp" and op: "op = Some orig"
    and w1: "w1 = w\<lparr>files := (files w)(?tp \<mapsto> data)\<rparr>"
    by (auto simp: save_copy_def write_file_def Let_def split: if_splits)
  show ?thesis using ne ok tp op w1 by (simp add: read_file_def path_exists_def)
qed

lemma download_body_result:
  assumes "download_body st w messages file_id = (Inr (tp, op), w1)" and "tp \<noteq> []"
  shows "\<exists>data orig. save_copy st w data orig = (Inr (tp, op), w1)"
  using assms
  by (auto simp: download_body_def split: option.splits message.splits sum.splits if_splits)

lemma download_image_result:
  assumes "download_image st w messages file_id = ((tp, op), w1)" and "tp \<noteq> []"
  shows "(\<exists>data. read_file w1 tp = Inr data) \<and> path_exists w1 tp"
proof -
  from assms have "download_body st w messages file_id = (Inr (tp, op), w1)"
    by (auto simp: download_image_def split: prod.splits sum.splits)
  from download_body_result [OF this assms(2)] obtain data orig
    where "save_copy st w data orig = (Inr (tp, op), w1)" by blast
  from save_copy_result [OF this] show ?thesis by blast
qed

lemma save_copy_indep:
  "save_copy st (w\<lparr>token_post := a, ocr_post := b\<rparr>) data orig =
     (fst (save_copy st w data orig), (snd (save_copy st w data orig))\<lparr>token_post := a, ocr_post := b\<rparr>)"
  by (simp add: save_copy_def write_file_def Let_def)

lemma download_body_indep:
  "download_body st (w\<lparr>token_post := a, ocr_post := b\<rparr>) messages file_id =
     (fst (download_body st w messages file_id),
      (snd (download_body st w messages file_id))\<lparr>token_post := a, ocr_post := b\<rparr>)"
  by (simp add: download_body_def save_copy_indep read_file_def path_exists_def
      split: option.splits message.splits sum.splits)

lemma download_image_indep:
  "download_image st (w\<lparr>token_post := a, ocr_post := b\<rparr>) messages file_id =
     (fst (download_image st w messages file_id),
      (snd (download_image st w messages file_id))\<lparr>token_post := a, ocr_post := b\<rparr>)"
  by (simp add: download_image_def download_body_indep split: prod.splits sum.splits)

lemma files_to_delete_indep:
  "files_to_delete (w\<lparr>token_post := a, ocr_post := b\<rparr>) tp op = files_to_delete w tp op"
  by (simp add: files_to_delete_def path_exists_def split: option.splits)

lemma ocr_command_after_download:
  assumes "filter is_Image messages \<noteq> []"
      and "download_image st w messages (image_file (hd (filter is_Image messages))) = ((tp, op), w1)"
      and "tp \<noteq> []"
  shows "ocr_command st w messages =
     \<lparr> replies = [if strip (fst (perform_ocr st w1 tp)) = [] then msg_no_text
                   else msg_text_content @ fst (perform_ocr st w1 tp)],
       scheduled = (if files_to_delete w1 tp op \<noteq> [] then [files_to_delete w1 tp op] else []),
       ocr_calls = [tp], requests = snd (snd (perform_ocr st w1 tp)),
       plugin_after = fst (snd (perform_ocr st w1 tp)), world_after = w1 \<rparr>"
  using assms by (simp add: ocr_command_def Let_def split: prod.splits)

lemma scheduled_after_download:
  assumes "filter is_Image messages \<noteq> []"
      and "download_image st w messages (image_file (hd (filter is_Image messages))) = ((tp, op), w1)"
      and "tp \<noteq> []"
  shows "scheduled (ocr_command st w messages) = [files_to_delete w1 tp op] \<and>
         tp \<in> set (files_to_delete w1 tp op)"
proof -
  have "path_exists w1 tp" using download_image_result [OF assms(2,3)] by simp
  then have "tp \<in> set (files_to_delete w1 tp op)" using assms(3) by (simp add: files_to_delete_def)
  then show ?thesis using ocr_command_after_download [OF assms] by auto
qed

lemma scheduled_indep:
  "scheduled (ocr_command st (w\<lparr>token_post := a, ocr_post := b\<rparr>) messages) =
   scheduled (ocr_command st w messages)"
proof (cases "filter is_Image messages = []")
  case True
  then show ?thesis by (simp add: ocr_command_def)
next
  case False
  let ?f = "image_file (hd (filter is_Image messages))"
  obtain tp op w1 where d: "download_image st w messages ?f = ((tp, op), w1)"
    by (metis prod.exhaust)
  then have d': "download_image st (w\<lparr>token_post := a, ocr_post := b\<rparr>) messages ?f =
      ((tp, op), w1\<lparr>token_post := a, ocr_post := b\<rparr>)"
    by (simp add: download_image_indep)
  show ?thesis
  proof (cases "tp = []")
    case True
    then show ?thesis using False d d' by (simp add: ocr_command_def)
  next
    case tp: False
    show ?thesis
      using scheduled_after_download [OF False d tp] scheduled_after_download [OF False d' tp]
      by (simp add: files_to_delete_indep)
  qed
qed

lemma strip_nonspace: "\<not> isspace c \<Longrightarrow> strip (c # s) \<noteq> []"
proof -
  assume c: "\<not> isspace c"
  have "dropWhile isspace (rev s @ [c]) \<noteq> []"
    using c by simp
  then show ?thesis using c by (simp add: strip_def lstrip_def rstrip_def)
qed

lemma strip_msg_auth_failed: "strip msg_auth_failed \<noteq> []"
  by (simp add: msg_auth_failed_def ascii_simps strip_nonspace isspace_def)

lemma strip_msg_ocr_failed: "strip (msg_ocr_failed @ s) \<noteq> []"
  by (simp add: msg_ocr_failed_def ascii_simps strip_nonspace isspace_def)

lemma perform_ocr_no_token:
  assumes "get_access_token st w = (token, st', reqs)" and "\<not> truthy token"
  shows "perform_ocr st w p = (msg_auth_failed, st', reqs)"
  using assms by (simp add: perform_ocr_def perform_body_def)

lemma perform_ocr_error_code:
  assumes "get_access_token st w = (token, st', reqs)" and "truthy token"
      and "read_file w p = Inr data"
      and "ocr_post w = Inr (JObj kvs)"
      and "ascii ''error_code'' \<in> set (map fst kvs)"
  shows "fst (perform_ocr st w p) = msg_ocr_failed @ py_format (render w)
      (case map_of kvs (ascii ''error_msg'') of Some m \<Rightarrow> m | None \<Rightarrow> JStr msg_unknown_error)"
  using assms(1-4) recognize_error [OF assms(5)] by (simp add: perform_ocr_def perform_body_def)


text \<open>
  Claim C5.  After a successful download, when \<open>_perform_ocr\<close> finds no token, or finds an
  \<open>error_code\<close> in the response dict, what it returns is the sentinel string (the
  authentication message, or the failure prefix followed by the \<open>error_msg\<close>), which is
  not empty even after \<open>strip\<close>; so the handler's only reply is the success reply, the
  text-content prefix followed by the sentinel, and not the "no text recognized" reply.
\<close>

theorem ocr_command_failure_as_text:
  assumes "filter is_Image messages \<noteq> []"
      and "download_image st w messages (image_file (hd (filter is_Image messages))) = ((tp, op), w1)"
      and "tp \<noteq> []"
      and "get_access_token st w1 = (token, st', reqs)"
      and "(\<not> truthy token \<and> sentinel = msg_auth_failed) \<or>
           (truthy token \<and>
            (\<exists>kvs. ocr_post w1 = Inr (JObj kvs) \<and> ascii ''error_code'' \<in> set (map fst kvs) \<and>
               sentinel = msg_ocr_failed @ py_format (render w1)
                 (case map_of kvs (ascii ''error_msg'') of
                    Some m \<Rightarrow> m
                  | None \<Rightarrow> JStr msg_unknown_error)))"
  shows "fst (perform_ocr st w1 tp) = sentinel \<and> sentinel \<noteq> [] \<and> strip sentinel \<noteq> [] \<and>
         replies (ocr_command st w messages) = [msg_text_content @ sentinel] \<and>
         replies (ocr_command st w messages) \<noteq> [msg_no_text]"
proof -
  have r: "fst (perform_ocr st w1 tp) = sentinel \<and> strip sentinel \<noteq> []"
    using assms(5)
  proof
    assume "\<not> truthy token \<and> sentinel = msg_auth_failed"
    then show ?thesis
      using perform_ocr_no_token [OF assms(4), of tp] strip_msg_auth_failed by simp
  next
    assume a: "truthy token \<and>
            (\<exists>kvs. ocr_post w1 = Inr (JObj kvs) \<and> ascii ''error_code'' \<in> set (map fst kvs) \<and>
               sentinel = msg_ocr_failed @ py_format (render w1)
                 (case map_of kvs (ascii ''error_msg'') of
                    Some m \<Rightarrow> m
                  | None \<Rightarrow> JStr msg_unknown_error))"
    then obtain kvs where k: "ocr_post w1 = Inr (JObj kvs)"
        "ascii ''error_code'' \<in> set (map fst kvs)"
        "sentinel = msg_ocr_failed @ py_format (render w1)
           (case map_of kvs (ascii ''error_msg'') of Some m \<Rightarrow> m | None \<Rightarrow> JStr msg_unknown_error)"
      by blast
    from download_image_result [OF assms(2,3)] obtain data where d: "read_file w1 tp = Inr data"
      by blast
    from a have t: "truthy token" by simp
    show ?thesis
      using perform_ocr_error_code [OF assms(4) t d k(1,2)] k(3) strip_msg_ocr_failed by simp
  qed
  then have ne: "sentinel \<noteq> []" by (auto simp: strip_Nil)
  have "msg_text_content @ sentinel \<noteq> msg_no_text"
    by (simp add: msg_text_content_def msg_no_text_def)
  then show ?thesis using r ne ocr_command_after_download [OF assms(1-3)] by simp
qed

text \<open>
  Claim C7.  After a successful download, with a token, when the recognition endpoint
  answers a dict with an \<open>error_code\<close> and the \<open>error_msg\<close> string, the reply contains that
  \<open>error_msg\<close>; one cleanup task is created for the artifact paths that exist, the
  temporary copy among them, and this list is the same whatever the token and recognition
  endpoints answer.
\<close>

theorem ocr_command_provider_error:
  assumes "filter is_Image messages \<noteq> []"
      and "download_image st w messages (image_file (hd (filter is_Image messages))) = ((tp, op), w1)"
      and "tp \<noteq> []"
      and "get_access_token st w1 = (token, st', reqs)"
      and "truthy token"
      and "ocr_post w1 = Inr (JObj kvs)"
      and "ascii ''error_code'' \<in> set (map fst kvs)"
      and "map_of kvs (ascii ''error_msg'') = Some (JStr error_msg)"
  shows "replies (ocr_command st w messages) = [msg_text_content @ msg_ocr_failed @ error_msg] \<and>
         sublist error_msg (hd (replies (ocr_command st w messages))) \<and>
         scheduled (ocr_command st w messages) = [files_to_delete w1 tp op] \<and>
         tp \<in> set (files_to_delete w1 tp op) \<and>
         (\<forall>p. p \<noteq> [] \<and> path_exists w1 p \<and> (p = tp \<or> op = Some p) \<longrightarrow>
              p \<in> set (files_to_delete w1 tp op)) \<and>
         (\<forall>a b. scheduled (ocr_command st (w\<lparr>token_post := a, ocr_post := b\<rparr>) messages) =
                [files_to_delete w1 tp op])"
proof -
  from download_image_result [OF assms(2,3)] obtain data where d: "read_file w1 tp = Inr data"
    by blast
  have t: "fst (perform_ocr st w1 tp) = msg_ocr_failed @ error_msg"
    using perform_ocr_error_code [OF assms(4,5) d assms(6,7)] assms(8) by simp
  have s: "strip (msg_ocr_failed @ error_msg) \<noteq> []" by (rule strip_msg_ocr_failed)
  have r: "replies (ocr_command st w messages) = [msg_text_content @ msg_ocr_failed @ error_msg]"
    using ocr_command_after_download [OF assms(1-3)] t s by simp
  have c: "sublist error_msg (msg_text_content @ msg_ocr_failed @ error_msg)"
    by (metis append.assoc sublist_appendI append_Nil2)
  have sch: "scheduled (ocr_command st w messages) = [files_to_delete w1 tp op] \<and>
      tp \<in> set (files_to_delete w1 tp op)"
    by (rule scheduled_after_download [OF assms(1-3)])
  have all: "\<forall>p. p \<noteq> [] \<and> path_exists w1 p \<and> (p = tp \<or> op = Some p) \<longrightarrow>
              p \<in> set (files_to_delete w1 tp op)"
    by (auto simp: files_to_delete_def)
  have ind: "\<forall>a b. scheduled (ocr_command st (w\<lparr>token_post := a, ocr_post := b\<rparr>) messages) =
                [files_to_delete w1 tp op]"
    using sch by (simp add: scheduled_indep)
  show ?thesis using r c sch all ind by simp
qed

text \<open>
  Claim C8.  When the message holds an image and \<open>download_image\<close> yields no local path,
  the handler's only reply is the download-failed message; \<open>_perform_ocr\<close> is not called, no
  request is issued, no cleanup is scheduled and the plugin is unchanged.
\<close>

theorem ocr_command_download_failed:
  assumes "filter is_Image messages \<noteq> []"
      and "fst (fst (download_image st w messages (image_file (hd (filter is_Image messages))))) = []"
  shows "replies (ocr_command st w messages) = [msg_download_failed] \<and>
         ocr_calls (ocr_command st w messages) = [] \<and>
         requests (ocr_command st w messages) = [] \<and>
         scheduled (ocr_command st w messages) = [] \<and>
         plugin_after (ocr_command st w messages) = st"
proof -
  obtain tp op w1
    where d: "download_image st w messages (image_file (hd (filter is_Image messages))) = ((tp, op), w1)"
    by (metis prod.exhaust)
  with assms(2) have "tp = []" by simp
  with d assms(1) show ?thesis by (simp add: ocr_command_def)
qed


lemma demo_temp_path:
  "path_join (temp_dir demo_plugin) (ascii ''ocr_'' @ str_int (py_int 100) @ ascii ''.jpg'') = demo_temp"
  by (simp add: demo_temp_def demo_plugin_def init_def path_join_def str_int_def py_int_def
      ascii_simps)

lemma demo_download:
  assumes "temp_dir st = temp_dir demo_plugin" and "files w = files demo_world"
      and "denied w = {}" and "time_name w = 100"
  shows "download_image st w demo_messages (ascii ''f1'') =
           ((demo_temp, Some demo_path), demo_after_download w)"
  using assms demo_temp_path
  by (simp add: download_image_def download_body_def demo_messages_def save_copy_def
      write_file_def read_file_def path_exists_def demo_world_fields demo_path_def
      demo_after_download_def ascii_simps)

lemma demo_images: "filter is_Image demo_messages \<noteq> []"
  "image_file (hd (filter is_Image demo_messages)) = ascii ''f1''"
  by (simp_all add: demo_messages_def)

lemma demo_token_after_download:
  "get_access_token demo_plugin (demo_after_download (demo_world\<lparr>ocr_post := r\<rparr>)) =
     (JStr (ascii ''T0''), demo_cached,
      [TokenPost (token_url demo_plugin) (ascii ''key'') (ascii ''secret'')])"
  by (simp add: demo_cached_eq get_access_token_def exchange_def demo_plugin_fields
      demo_world_fields demo_token_response_def demo_after_download_def ascii_simps)

theorem ocr_command_failure_as_text_witness:
  "replies (ocr_command (demo_plugin\<lparr>api_key := []\<rparr>) demo_world demo_messages) =
     [msg_text_content @ msg_auth_failed] \<and>
   replies (ocr_command demo_plugin (demo_world\<lparr>ocr_post := Inr demo_error_response\<rparr>) demo_messages) =
     [msg_text_content @ msg_ocr_failed @ ascii ''Open api daily request limit reached'']"
proof -
  let ?st = "demo_plugin\<lparr>api_key := []\<rparr>"
  let ?w = "demo_world\<lparr>ocr_post := Inr demo_error_response\<rparr>"
  have d1: "download_image ?st demo_world demo_messages (image_file (hd (filter is_Image demo_messages)))
      = ((demo_temp, Some demo_path), demo_after_download demo_world)"
    by (simp add: demo_images demo_download demo_world_fields)
  have d2: "download_image demo_plugin ?w demo_messages (image_file (hd (filter is_Image demo_messages)))
      = ((demo_temp, Some demo_path), demo_after_download ?w)"
    by (simp add: demo_images demo_download demo_world_fields)
  have ne: "demo_temp \<noteq> []" by (simp add: demo_temp_def ascii_simps)
  have t1: "get_access_token ?st (demo_after_download demo_world) = (JNull, ?st, [])"
    by (simp add: get_access_token_def)
  have h1: "(\<not> truthy JNull \<and> msg_auth_failed = msg_auth_failed) \<or>
           (truthy JNull \<and>
            (\<exists>kvs. ocr_post (demo_after_download demo_world) = Inr (JObj kvs) \<and>
               ascii ''error_code'' \<in> set (map fst kvs) \<and>
               msg_auth_failed = msg_ocr_failed @ py_format (render (demo_after_download demo_world))
                 (case map_of kvs (ascii ''error_msg'') of
                    Some m \<Rightarrow> m
                  | None \<Rightarrow> JStr msg_unknown_error)))" by simp
  let ?s = "msg_ocr_failed @ ascii ''Open api daily request limit reached''"
  have h2: "(\<not> truthy (JStr (ascii ''T0'')) \<and> ?s = msg_auth_failed) \<or>
           (truthy (JStr (ascii ''T0'')) \<and>
            (\<exists>kvs. ocr_post (demo_after_download ?w) = Inr (JObj kvs) \<and>
               ascii ''error_code'' \<in> set (map fst kvs) \<and>
               ?s = msg_ocr_failed @ py_format (render (demo_after_download ?w))
                 (case map_of kvs (ascii ''error_msg'') of
                    Some m \<Rightarrow> m
                  | None \<Rightarrow> JStr msg_unknown_error)))"
    by (simp add: demo_after_download_def demo_error_response_def ascii_simps)
  show ?thesis
    using ocr_command_failure_as_text [OF demo_images(1) d1 ne t1 h1]
      ocr_command_failure_as_text [OF demo_images(1) d2 ne demo_token_after_download h2]
    by simp
qed

theorem ocr_command_provider_error_witness:
  "replies (ocr_command demo_plugin (demo_world\<lparr>ocr_post := Inr demo_error_response\<rparr>) demo_messages) =
     [msg_text_content @ msg_ocr_failed @ ascii ''Open api daily request limit reached''] \<and>
   scheduled (ocr_command demo_plugin (demo_world\<lparr>ocr_post := Inr demo_error_response\<rparr>) demo_messages) =
     [[demo_temp, demo_path]]"
proof -
  let ?w = "demo_world\<lparr>ocr_post := Inr demo_error_response\<rparr>"
  have d: "download_image demo_plugin ?w demo_messages (image_file (hd (filter is_Image demo_messages)))
      = ((demo_temp, Some demo_path), demo_after_download ?w)"
    by (simp add: demo_images demo_download demo_world_fields)
  have ne: "demo_temp \<noteq> []" by (simp add: demo_temp_def ascii_simps)
  have t: "truthy (JStr (ascii ''T0''))" by (simp add: ascii_simps)
  have p: "ocr_post (demo_after_download ?w) = Inr (JObj
     [(ascii ''error_code'', JInt 17),
      (ascii ''error_msg'', JStr (ascii ''Open api daily request limit reached''))])"
    by (simp add: demo_after_download_def demo_error_response_def)
  have k: "ascii ''error_code'' \<in> set (map fst
     [(ascii ''error_code'', JInt 17),
      (ascii ''error_msg'', JStr (ascii ''Open api daily request limit reached''))])" by simp
  have m: "map_of
     [(ascii ''error_code'', JInt 17),
      (ascii ''error_msg'', JStr (ascii ''Open api daily request limit reached''))]
     (ascii ''error_msg'') = Some (JStr (ascii ''Open api daily request limit reached''))"
    by (simp add: ascii_simps)
  have f: "files_to_delete (demo_after_download ?w) demo_temp (Some demo_path) = [demo_temp, demo_path]"
    by (simp add: files_to_delete_def path_exists_def demo_after_download_def demo_world_fields
        demo_temp_def demo_path_def ascii_simps)
  show ?thesis
    using ocr_command_provider_error [OF demo_images(1) d ne demo_token_after_download t p k m] f
    by simp
qed

theorem ocr_command_download_failed_witness:
  "replies (ocr_command demo_plugin demo_world [Image (ascii ''f1'') (Inl OSError)]) =
     [msg_download_failed] \<and>
   ocr_calls (ocr_command demo_plugin demo_world [Image (ascii ''f1'') (Inl OSError)]) = [] \<and>
   requests (ocr_command demo_plugin demo_world [Image (ascii ''f1'') (Inl OSError)]) = []"
proof -
  let ?m = "[Image (ascii ''f1'') (Inl OSError)]"
  have a: "filter is_Image ?m \<noteq> []" by simp
  have b: "fst (fst (download_image demo_plugin demo_world ?m (image_file (hd (filter is_Image ?m))))) = []"
    by (simp add: download_image_def download_body_def)
  show ?thesis using ocr_command_download_failed [OF a b] by simp
qed

section \<open>Cleanup\<close>

lemma try_unlink_result:
  "\<exists>w' entry. try_unlink w p = Inr (w', entry) \<and> attempted entry = p \<and> denied w' = denied w \<and>
     (\<forall>q. path_exists w' q \<longrightarrow> path_exists w q) \<and>
     (\<forall>q. q \<noteq> p \<longrightarrow> path_exists w' q = path_exists w q) \<and>
     (p \<notin> denied w \<longrightarrow> \<not> path_exists w' p)"
  by (simp add: try_unlink_def unlink_def path_exists_def)

lemma cleanup_files_skip:
  "\<not> wanted w path \<Longrightarrow> cleanup_files w (path # paths) = cleanup_files w paths"
  by (auto simp: wanted_def)

lemma cleanup_files_total:
  "\<exists>w' entries. cleanup_files w paths = Inr (w', entries) \<and> denied w' = denied w \<and>
     (\<forall>q. path_exists w' q \<longrightarrow> path_exists w q) \<and>
     (\<forall>e \<in> set entries. path_exists w (attempted e) \<and> Some (attempted e) \<in> set paths) \<and>
     (\<forall>p. Some p \<in> set paths \<and> p \<noteq> [] \<and> path_exists w p \<longrightarrow> p \<in> attempted ` set entries) \<and>
     (\<forall>p. Some p \<in> set paths \<and> p \<noteq> [] \<and> p \<notin> denied w \<longrightarrow> \<not> path_exists w' p)"
proof (induction paths arbitrary: w)
  case Nil
  show ?case by simp
next
  case (Cons path paths)
  show ?case
  proof (cases "wanted w path")
    case False
    from Cons.IH [of w] obtain w' entries where ih:
      "cleanup_files w paths = Inr (w', entries)" "denied w' = denied w"
      "\<forall>q. path_exists w' q \<longrightarrow> path_exists w q"
      "\<forall>e \<in> set entries. path_exists w (attempted e) \<and> Some (attempted e) \<in> set paths"
      "\<forall>p. Some p \<in> set paths \<and> p \<noteq> [] \<and> path_exists w p \<longrightarrow> p \<in> attempted ` set entries"
      "\<forall>p. Some p \<in> set paths \<and> p \<noteq> [] \<and> p \<notin> denied w \<longrightarrow> \<not> path_exists w' p"
      by blast
    have c: "cleanup_files w (path # paths) = Inr (w', entries)"
      using cleanup_files_skip [OF False] ih(1) by simp
    have a: "\<forall>p. Some p \<in> set (path # paths) \<and> p \<noteq> [] \<and> path_exists w p \<longrightarrow> p \<in> attempted ` set entries"
      using False ih(5) by (auto simp: wanted_def)
    have b: "\<forall>p. Some p \<in> set (path # paths) \<and> p \<noteq> [] \<and> p \<notin> denied w \<longrightarrow> \<not> path_exists w' p"
      using False ih(3,6) by (auto simp: wanted_def)
    show ?thesis using c ih(2,3,4) a b by auto
  next
    case True
    then obtain p where p: "path = Some p" "p \<noteq> []" "path_exists w p"
      by (cases path) (simp_all add: wanted_def)
    from try_unlink_result [of w p] obtain w1 entry where u:
      "try_unlink w p = Inr (w1, entry)" "attempted entry = p" "denied w1 = denied w"
      "\<forall>q. path_exists w1 q \<longrightarrow> path_exists w q"
      "\<forall>q. q \<noteq> p \<longrightarrow> path_exists w1 q = path_exists w q"
      "p \<notin> denied w \<longrightarrow> \<not> path_exists w1 p"
      by blast
    from Cons.IH [of w1] obtain w' entries where ih:
      "cleanup_files w1 paths = Inr (w', entries)" "denied w' = denied w1"
      "\<forall>q. path_exists w' q \<longrightarrow> path_exists w1 q"
      "\<forall>e \<in> set entries. path_exists w1 (attempted e) \<and> Some (attempted e) \<in> set paths"
      "\<forall>p. Some p \<in> set paths \<and> p \<noteq> [] \<and> path_exists w1 p \<longrightarrow> p \<in> attempted ` set entries"
      "\<forall>p. Some p \<in> set paths \<and> p \<noteq> [] \<and> p \<notin> denied w1 \<longrightarrow> \<not> path_exists w' p"
      by blast
    have c: "cleanup_files w (path # paths) = Inr (w', entry # entries)"
      using p u(1) ih(1) by simp
    have d: "denied w' = denied w" using ih(2) u(3) by simp
    have e: "\<forall>q. path_exists w' q \<longrightarrow> path_exists w q" using ih(3) u(4) by blast
    have f: "\<forall>e \<in> set (entry # entries). path_exists w (attempted e) \<and> Some (attempted e) \<in> set (path # paths)"
      using p u(2,4) ih(4) by auto
    have g: "\<forall>q. Some q \<in> set (path # paths) \<and> q \<noteq> [] \<and> path_exists w q \<longrightarrow>
                q \<in> attempted ` set (entry # entries)"
    proof (intro allI impI)
      fix q assume q: "Some q \<in> set (path # paths) \<and> q \<noteq> [] \<and> path_exists w q"
      show "q \<in> attempted ` set (entry # entries)"
      proof (cases "q = p")
        case True
        then show ?thesis using u(2) by force
      next
        case False
        then have "Some q \<in> set paths" "path_exists w1 q" using q p(1) u(5) by auto
        then have "q \<in> attempted ` set entries" using ih(5) q by blast
        then show ?thesis by auto
      qed
    qed
    have h: "\<forall>q. Some q \<in> set (path # paths) \<and> q \<noteq> [] \<and> q \<notin> denied w \<longrightarrow> \<not> path_exists w' q"
    proof (intro allI impI)
      fix q assume q: "Some q \<in> set (path # paths) \<and> q \<noteq> [] \<and> q \<notin> denied w"
      show "\<not> path_exists w' q"
      proof (cases "q = p")
        case True
        then show ?thesis using q u(6) ih(3) by blast
      next
        case False
        then have "Some q \<in> set paths" using q p(1) by auto
        then show ?thesis using ih(6) q u(3) by simp
      qed
    qed
    show ?thesis using c d e f g h by blast
  qed
qed

text \<open>
  Claim C10.  For every world and list of paths \<open>cleanup_files\<close> returns normally, and so
  does a second run after it.  Only paths that exist are unlinked; a path that is \<open>None\<close>,
  empty or absent is passed over without any effect.  Every path of the list that exists
  gets its unlink attempt whatever happens to the others, and every one whose unlink is not
  refused is gone afterwards.  The second run attempts only what the first one left.
\<close>

theorem cleanup_files_never_raises:
  "\<exists>w1 log1 w2 log2.
     cleanup_files w paths = Inr (w1, log1) \<and>
     cleanup_files w1 paths = Inr (w2, log2) \<and>
     (\<forall>e \<in> set log1. path_exists w (attempted e)) \<and>
     (\<forall>p. Some p \<in> set paths \<and> p \<noteq> [] \<and> path_exists w p \<longrightarrow> p \<in> attempted ` set log1) \<and>
     (\<forall>p. Some p \<in> set paths \<and> p \<noteq> [] \<and> p \<notin> denied w \<longrightarrow> \<not> path_exists w1 p) \<and>
     (\<forall>e \<in> set log2. path_exists w1 (attempted e)) \<and>
     (\<forall>path. \<not> wanted w path \<longrightarrow> cleanup_files w [path] = Inr (w, [])) \<and>
     (\<forall>path. \<not> wanted w1 path \<longrightarrow> cleanup_files w1 [path] = Inr (w1, []))"
proof -
  from cleanup_files_total [of w paths] obtain w1 log1 where a:
    "cleanup_files w paths = Inr (w1, log1)"
    "\<forall>e \<in> set log1. path_exists w (attempted e) \<and> Some (attempted e) \<in> set paths"
    "\<forall>p. Some p \<in> set paths \<and> p \<noteq> [] \<and> path_exists w p \<longrightarrow> p \<in> attempted ` set log1"
    "\<forall>p. Some p \<in> set paths \<and> p \<noteq> [] \<and> p \<notin> denied w \<longrightarrow> \<not> path_exists w1 p"
    by blast
  from cleanup_files_total [of w1 paths] obtain w2 log2 where b:
    "cleanup_files w1 paths = Inr (w2, log2)"
    "\<forall>e \<in> set log2. path_exists w1 (attempted e) \<and> Some (attempted e) \<in> set paths"
    by blast
  have c: "\<forall>path. \<not> wanted v path \<longrightarrow> cleanup_files v [path] = Inr (v, [])" for v
    using cleanup_files_skip [of v _ "[]"] by simp
  show ?thesis using a b c by blast
qed

lemma demo_cleanup_run:
  "cleanup_files demo_cleanup_world demo_paths =
     Inr (demo_cleanup_world\<lparr>files := [demo_locked \<mapsto> [0]]\<rparr>,
          [DeleteFailed demo_locked OSError, Deleted demo_path])"
  by (simp add: demo_paths_def demo_cleanup_world_def try_unlink_def unlink_def path_exists_def
      demo_locked_def demo_path_def ascii_simps fun_upd_twist)

theorem cleanup_files_never_raises_witness:
  "cleanup_files demo_cleanup_world demo_paths =
     Inr (demo_cleanup_world\<lparr>files := [demo_locked \<mapsto> [0]]\<rparr>,
          [DeleteFailed demo_locked OSError, Deleted demo_path]) \<and>
   (\<exists>w2 log2. cleanup_files (demo_cleanup_world\<lparr>files := [demo_locked \<mapsto> [0]]\<rparr>) demo_paths =
      Inr (w2, log2) \<and> demo_path \<notin> attempted ` set log2)"
proof -
  let ?w1 = "demo_cleanup_world\<lparr>files := [demo_locked \<mapsto> [0]]\<rparr>"
  have gone: "\<not> path_exists ?w1 demo_path"
    by (simp add: path_exists_def demo_locked_def demo_path_def ascii_simps)
  from cleanup_files_never_raises [of demo_cleanup_world demo_paths]
  obtain w2 log2 where
    "cleanup_files ?w1 demo_paths = Inr (w2, log2)"
    "\<forall>e \<in> set log2. path_exists ?w1 (attempted e)"
    by (auto simp: demo_cleanup_run)
  then have "cleanup_files ?w1 demo_paths = Inr (w2, log2) \<and> demo_path \<notin> attempted ` set log2"
    using gone by auto
  then show ?thesis using demo_cleanup_run by blast
qed

end
